theory Spec2Isabelle
  imports Complex_Main "HOL-Library.Signed_Division"
begin

section \<open>The integrated overworld and level game\<close>

text \<open>
  A shallow embedding of \<^verbatim>\<open>smb3bygptandgeminiplusgrokv0.5.16.25.py\<close>: the spatial
  grid, the level loader, the level tick with its collision handling, the overworld
  navigation and the event handling of the frame loop.

  Conventions of the embedding.
  \<^item> Python integers are \<open>int\<close>. Python floats (the frame time \<open>dt\<close>, the player's
    velocity, the enemies' \<open>vel_x\<close>, \<open>time_left\<close>) are \<open>real\<close>: the rounding of
    IEEE arithmetic is not modelled, only the order and sign tests and the conversions to
    integers that the program performs.
  \<^item> A \<^verbatim>\<open>pygame.Rect\<close> holds four integers. Its derived attributes and
    \<^verbatim>\<open>colliderect\<close> are the toolkit's, written out below. Assigning a float to an
    integer attribute truncates toward zero, as Python's \<^verbatim>\<open>int()\<close> does.
  \<^item> Every exception the modelled code can raise is a value of \<open>error\<close>; a function
    that may raise returns \<open>error + 'a\<close>.
  \<^item> Sound playback, drawing and printing do not influence the game state and are left out.
\<close>

subsection \<open>Constants\<close>

definition W :: int where "W = 640"
definition H :: int where "H = 400"
definition FPS :: int where "FPS = 60"
definition GRAVITY :: real where "GRAVITY = 55 / 100"
definition JUMP_VEL :: real where "JUMP_VEL = - 10"
definition TILE :: int where "TILE = 16"
definition SCALE :: int where "SCALE = 2"

subsection \<open>Errors\<close>

datatype error = ZeroDivisionError | ValueError | IndexError

definition bind_err :: "error + 'a \<Rightarrow> ('a \<Rightarrow> error + 'b) \<Rightarrow> error + 'b" where
  "bind_err m f = (case m of Inl e \<Rightarrow> Inl e | Inr a \<Rightarrow> f a)"

text \<open>Running a statement that may raise over a list, left to right: a \<^verbatim>\<open>for\<close> loop.\<close>

fun for_each :: "('a \<Rightarrow> 's \<Rightarrow> error + 's) \<Rightarrow> 'a list \<Rightarrow> 's \<Rightarrow> error + 's" where
  "for_each f [] s = Inr s"
| "for_each f (a # as) s = bind_err (f a s) (for_each f as)"

subsection \<open>Rectangles\<close>

record Rect =
  rect_x :: int
  rect_y :: int
  rect_w :: int
  rect_h :: int

definition mk_rect :: "int \<Rightarrow> int \<Rightarrow> int \<Rightarrow> int \<Rightarrow> Rect" where
  "mk_rect x y w h = \<lparr>rect_x = x, rect_y = y, rect_w = w, rect_h = h\<rparr>"

definition rect_left :: "Rect \<Rightarrow> int" where "rect_left r = rect_x r"
definition rect_top :: "Rect \<Rightarrow> int" where "rect_top r = rect_y r"
definition rect_right :: "Rect \<Rightarrow> int" where "rect_right r = rect_x r + rect_w r"
definition rect_bottom :: "Rect \<Rightarrow> int" where "rect_bottom r = rect_y r + rect_h r"

text \<open>The toolkit halves with C's integer division, which truncates toward zero.\<close>

definition rect_centerx :: "Rect \<Rightarrow> int" where "rect_centerx r = rect_x r + rect_w r sdiv 2"
definition rect_centery :: "Rect \<Rightarrow> int" where "rect_centery r = rect_y r + rect_h r sdiv 2"

definition rect_midbottom :: "Rect \<Rightarrow> int \<times> int" where
  "rect_midbottom r = (rect_x r + rect_w r sdiv 2, rect_y r + rect_h r)"

definition set_right :: "int \<Rightarrow> Rect \<Rightarrow> Rect" where
  "set_right v r = r\<lparr>rect_x := v - rect_w r\<rparr>"
definition set_left :: "int \<Rightarrow> Rect \<Rightarrow> Rect" where
  "set_left v r = r\<lparr>rect_x := v\<rparr>"
definition set_bottom :: "int \<Rightarrow> Rect \<Rightarrow> Rect" where
  "set_bottom v r = r\<lparr>rect_y := v - rect_h r\<rparr>"
definition set_top :: "int \<Rightarrow> Rect \<Rightarrow> Rect" where
  "set_top v r = r\<lparr>rect_y := v\<rparr>"
definition set_size :: "int \<times> int \<Rightarrow> Rect \<Rightarrow> Rect" where
  "set_size wh r = r\<lparr>rect_w := fst wh, rect_h := snd wh\<rparr>"
definition set_midbottom :: "int \<times> int \<Rightarrow> Rect \<Rightarrow> Rect" where
  "set_midbottom p r = r\<lparr>rect_x := fst p - rect_w r sdiv 2, rect_y := snd p - rect_h r\<rparr>"

text \<open>
  \<^verbatim>\<open>colliderect\<close>: two rectangles collide when they share area; rectangles that only
  touch at an edge do not, and a rectangle of zero width or height collides with nothing.
  The toolkit normalises negative sizes with min and max.
\<close>

definition colliderect :: "Rect \<Rightarrow> Rect \<Rightarrow> bool" where
  "colliderect a b =
     (if rect_w a = 0 \<or> rect_h a = 0 \<or> rect_w b = 0 \<or> rect_h b = 0 then False
      else min (rect_x a) (rect_x a + rect_w a) < max (rect_x b) (rect_x b + rect_w b)
         \<and> min (rect_y a) (rect_y a + rect_h a) < max (rect_y b) (rect_y b + rect_h b)
         \<and> max (rect_x a) (rect_x a + rect_w a) > min (rect_x b) (rect_x b + rect_w b)
         \<and> max (rect_y a) (rect_y a + rect_h a) > min (rect_y b) (rect_y b + rect_h b))"

text \<open>Conversion of a float to an integer coordinate: truncation toward zero.\<close>

definition trunc :: "real \<Rightarrow> int" where
  "trunc v = (if 0 \<le> v then \<lfloor>v\<rfloor> else \<lceil>v\<rceil>)"

subsection \<open>Spatial grid\<close>

text \<open>
  \<^verbatim>\<open>Grid.cells\<close> is a dictionary from cell coordinates to the list of rectangles
  filed under that cell. \<open>bucket\<close> is \<^verbatim>\<open>cells.get(key, [])\<close>. Floor division
  \<^verbatim>\<open>//\<close> is \<open>div\<close> on \<open>int\<close>; by zero it raises.
\<close>

record Grid =
  cell_size :: int
  cells :: "int \<times> int \<rightharpoonup> Rect list"

definition new_Grid :: "int \<Rightarrow> Grid" where
  "new_Grid cs = \<lparr>cell_size = cs, cells = Map.empty\<rparr>"

definition Grid_clear :: "Grid \<Rightarrow> Grid" where
  "Grid_clear g = g\<lparr>cells := Map.empty\<rparr>"

definition bucket :: "(int \<times> int \<rightharpoonup> Rect list) \<Rightarrow> int \<times> int \<Rightarrow> Rect list" where
  "bucket c k = (case c k of None \<Rightarrow> [] | Some l \<Rightarrow> l)"

definition cell_append :: "Rect \<Rightarrow> int \<times> int \<Rightarrow> (int \<times> int \<rightharpoonup> Rect list) \<Rightarrow> (int \<times> int \<rightharpoonup> Rect list)" where
  "cell_append r k c = c(k \<mapsto> bucket c k @ [r])"

definition Grid_insert :: "Grid \<Rightarrow> Rect \<Rightarrow> error + Grid" where
  "Grid_insert g r =
     (if cell_size g = 0 then Inl ZeroDivisionError
      else
        let cx1 = rect_left r div cell_size g;
            cy1 = rect_top r div cell_size g;
            cx2 = rect_right r div cell_size g;
            cy2 = rect_bottom r div cell_size g
        in Inr (g\<lparr>cells :=
                  fold (\<lambda>cx. fold (\<lambda>cy. cell_append r (cx, cy)) [cy1..cy2]) [cx1..cx2] (cells g)\<rparr>))"

text \<open>
  The query keeps the set \<open>seen\<close> of the bounds \<^verbatim>\<open>(x, y, width, height)\<close> already
  returned and the list of rectangles returned so far.
\<close>

definition r_tuple :: "Rect \<Rightarrow> int \<times> int \<times> int \<times> int" where
  "r_tuple r = (rect_x r, rect_y r, rect_w r, rect_h r)"

definition visit :: "Rect \<Rightarrow> (int \<times> int \<times> int \<times> int) set \<times> Rect list
    \<Rightarrow> (int \<times> int \<times> int \<times> int) set \<times> Rect list" where
  "visit r st =
     (if r_tuple r \<notin> fst st then (insert (r_tuple r) (fst st), snd st @ [r]) else st)"

definition Grid_query :: "Grid \<Rightarrow> Rect \<Rightarrow> error + Rect list" where
  "Grid_query g r =
     (if cell_size g = 0 then Inl ZeroDivisionError
      else
        let cx1 = rect_left r div cell_size g;
            cy1 = rect_top r div cell_size g;
            cx2 = rect_right r div cell_size g;
            cy2 = rect_bottom r div cell_size g
        in Inr (snd (fold (\<lambda>cx. fold (\<lambda>cy. fold visit (bucket (cells g) (cx, cy))) [cy1..cy2])
                      [cx1..cx2] ({}, []))))"

text \<open>Inserting a list of rectangles one after the other, as the level loader does.\<close>

definition insert_all :: "Rect list \<Rightarrow> Grid \<Rightarrow> error + Grid" where
  "insert_all rs g = for_each (\<lambda>r g. Grid_insert g r) rs g"


definition query_after :: "Rect list \<Rightarrow> Grid \<Rightarrow> Rect \<Rightarrow> error + Rect list" where
  "query_after rs g q = bind_err (insert_all rs g) (\<lambda>g'. Grid_query g' q)"

subsection \<open>Level specifications\<close>

record LevelSpec =
  name :: string
  platforms :: "(int \<times> int \<times> int \<times> int) list"
  blocks :: "(int \<times> int) list"
  coins :: "(int \<times> int) list"
  enemies :: "(int \<times> int \<times> string) list"
  goal :: "int \<times> int"
  background_color :: "int \<times> int \<times> int"

definition sky :: "int \<times> int \<times> int" where "sky = (110, 180, 240)"

text \<open>The four authored levels of \<^verbatim>\<open>smb3_level_definitions\<close>.\<close>

definition level_1_1 :: LevelSpec where
  "level_1_1 = \<lparr>name = ''1-1'',
     platforms = [(0, H - 32, W, 32), (W + 50, H - 32, W, 32)],
     blocks = [(6, 18), (7, 18), (12, 16), (25, 18)],
     coins = [(10, 14), (14, 14), (27, 16)],
     enemies = [(200, H - 32 - 32, ''goomba''), (380, H - 32 - 32, ''koopa''),
                (W + 100, H - 32 - 32, ''goomba'')],
     goal = (W + W - 60, H - 64),
     background_color = sky\<rparr>"

definition level_1_2 :: LevelSpec where
  "level_1_2 = \<lparr>name = ''1-2'',
     platforms = [(0, H - 32, W div 2, 32), (W div 2 + 100, H - 32, W div 2 - 100, 32),
                  (W, H - 32, W, 32)],
     blocks = [(5, 17), (15, 15), (20, 13)],
     coins = [(8, 15), (18, 13)],
     enemies = [(150, H - 32 - 32, ''goomba''), (450, H - 32 - 32, ''koopa'')],
     goal = (W + W - 60, H - 64),
     background_color = sky\<rparr>"

definition level_1_3 :: LevelSpec where
  "level_1_3 = \<lparr>name = ''1-3'',
     platforms = [(0, H - 32, W, 32), (100, H - 96, 150, 32), (W, H - 32, W, 32)],
     blocks = [(8, 16), (9, 16), (10, 16)],
     coins = [(12, 14), (13, 14)],
     enemies = [(250, H - 32 - 32, ''goomba''), (350, H - 32 - 32, ''koopa'')],
     goal = (W + W - 60, H - 64),
     background_color = sky\<rparr>"

definition level_2_1 :: LevelSpec where
  "level_2_1 = \<lparr>name = ''2-1'',
     platforms = [(0, H - 32, W * 2, 32)],
     blocks = [(5, 18), (20, 17)],
     coins = [(10, 16), (25, 15)],
     enemies = [(200, H - 32 - 32, ''goomba'')],
     goal = (W * 2 - 60, H - 64),
     background_color = sky\<rparr>"

text \<open>
  \<^verbatim>\<open>GAME_LEVEL_SPECS\<close> holds \<open>level_map_config\<close> and, for every other node, a
  placeholder level drawn at random when the module is loaded. The table is therefore a
  parameter \<open>specs\<close> of the functions that read it.
\<close>

definition level_map_config :: "int \<times> int \<rightharpoonup> LevelSpec" where
  "level_map_config =
     [(0, 0) \<mapsto> level_1_1, (0, 1) \<mapsto> level_1_2, (0, 3) \<mapsto> level_1_3, (1, 0) \<mapsto> level_2_1]"

subsection \<open>Overworld map data\<close>

record Node =
  pos :: "int \<times> int"
  level_id :: "int \<times> int"
  label :: string
  node_type :: "string option"

record World =
  world_name :: string
  nodes :: "Node list"

definition node :: "int \<times> int \<Rightarrow> int \<times> int \<Rightarrow> string \<Rightarrow> Node" where
  "node p l s = \<lparr>pos = p, level_id = l, label = s, node_type = None\<rparr>"

definition tnode :: "int \<times> int \<Rightarrow> int \<times> int \<Rightarrow> string \<Rightarrow> string \<Rightarrow> Node" where
  "tnode p l s t = \<lparr>pos = p, level_id = l, label = s, node_type = Some t\<rparr>"

definition SMW_STYLE_MAP_DATA :: "World list" where
  "SMW_STYLE_MAP_DATA = [
     \<lparr>world_name = ''Yoshi's Island'', nodes = [
        node (60, 300) (0, 0) ''YI 1'',
        node (120, 270) (0, 1) ''YI 2'',
        tnode (90, 220) (0, 2) ''Ylw Switch'' ''switch'',
        node (180, 240) (0, 3) ''YI 3'',
        node (240, 270) (0, 4) ''YI 4'',
        tnode (300, 300) (0, 5) ''#1 Iggy'' ''castle'']\<rparr>,
     \<lparr>world_name = ''Donut Plains'', nodes = [
        node (60, 180) (1, 0) ''DP 1'',
        node (120, 150) (1, 1) ''DP 2'',
        tnode (90, 100) (1, 2) ''Grn Switch'' ''switch'',
        node (180, 120) (1, 3) ''DP Secret'',
        node (240, 150) (1, 4) ''DP 3'',
        node (300, 180) (1, 5) ''DP 4'',
        tnode (360, 150) (1, 6) ''DP Ghost'' ''ghost'',
        tnode (420, 180) (1, 7) ''#2 Morton'' ''castle'']\<rparr>,
     \<lparr>world_name = ''Vanilla Dome'', nodes = [
        node (400, 80) (2, 0) ''VD 1'',
        node (460, 50) (2, 1) ''VD 2'',
        tnode (430, 120) (2, 2) ''Red Switch'' ''switch'',
        node (520, 90) (2, 3) ''VD 3'',
        tnode (580, 60) (2, 4) ''VD Ghost'' ''ghost'',
        tnode (550, 130) (2, 5) ''#3 Lemmy'' ''castle'']\<rparr>,
     \<lparr>world_name = ''Twin Bridges'', nodes = [
        tnode (80, 350) (3, 0) ''V.Fortress'' ''fortress'',
        node (150, 320) (3, 1) ''Cookie Mtn'',
        node (220, 350) (3, 2) ''Butter Br 1'',
        node (290, 320) (3, 3) ''Butter Br 2'',
        node (360, 350) (3, 4) ''Cheese Br'',
        tnode (430, 320) (3, 5) ''#4 Ludwig'' ''castle'']\<rparr>,
     \<lparr>world_name = ''Forest of Illusion'', nodes = [
        node (500, 250) (4, 0) ''FoI 1'',
        node (560, 220) (4, 1) ''FoI 2'',
        tnode (530, 170) (4, 2) ''Blu Switch'' ''switch'',
        node (470, 190) (4, 3) ''FoI 3'',
        tnode (540, 280) (4, 4) ''FoI Ghost'' ''ghost'',
        node (590, 200) (4, 5) ''FoI Secret'',
        tnode (500, 140) (4, 6) ''#5 Roy'' ''castle'']\<rparr>,
     \<lparr>world_name = ''Chocolate Island'', nodes = [
        node (80, 50) (5, 0) ''CI 1'',
        node (140, 80) (5, 1) ''CI 2'',
        node (200, 50) (5, 2) ''CI 3'',
        tnode (170, 110) (5, 3) ''CI Ghost'' ''ghost'',
        node (260, 80) (5, 4) ''CI Secret'',
        tnode (320, 50) (5, 5) ''ChocoFort'' ''fortress'',
        tnode (290, 120) (5, 6) ''#6 Wendy'' ''castle'']\<rparr>,
     \<lparr>world_name = ''Valley of Bowser'', nodes = [
        node (450, 350) (6, 0) ''VB 1'',
        node (500, 320) (6, 1) ''VB 2'',
        tnode (550, 350) (6, 2) ''VB Ghost'' ''ghost'',
        tnode (500, 380) (6, 3) ''VB Castle'' ''fortress'',
        tnode (580, 300) (6, 4) ''Bowser's'' ''castle'']\<rparr>,
     \<lparr>world_name = ''Star World'', nodes = [
        node (100, 30) (7, 0) ''SW 1'',
        node (180, 30) (7, 1) ''SW 2'',
        node (260, 30) (7, 2) ''SW 3'',
        node (340, 30) (7, 3) ''SW 4'',
        node (420, 30) (7, 4) ''SW 5'']\<rparr>,
     \<lparr>world_name = ''Special Zone'', nodes = [
        node (500, 30) (8, 0) ''Gnarly'',
        node (500, 70) (8, 1) ''Tubular'',
        node (500, 110) (8, 2) ''WayCool'',
        node (500, 150) (8, 3) ''Awesome'',
        node (500, 190) (8, 4) ''Groovy'',
        node (500, 230) (8, 5) ''Mondo'',
        node (500, 270) (8, 6) ''Outrage'',
        node (500, 310) (8, 7) ''Funky'']\<rparr>]"

text \<open>Python list indexing: a negative index counts from the end, out of range raises.\<close>

definition py_nth :: "'a list \<Rightarrow> int \<Rightarrow> error + 'a" where
  "py_nth xs i =
     (if - int (length xs) \<le> i \<and> i < 0 then Inr (xs ! nat (i + int (length xs)))
      else if 0 \<le> i \<and> i < int (length xs) then Inr (xs ! nat i)
      else Inl IndexError)"

text \<open>Python \<^verbatim>\<open>%\<close> on integers: the sign of the result follows the divisor, as \<open>mod\<close>.\<close>

definition py_mod :: "int \<Rightarrow> int \<Rightarrow> error + int" where
  "py_mod a b = (if b = 0 then Inl ZeroDivisionError else Inr (a mod b))"


subsection \<open>Game state\<close>

datatype game_mode = Overworld | Level | Paused | Game_over | Victory

datatype char_state = Small | Big | Fire

datatype enemy_mode = Walking | Stomped

text \<open>
  An enemy is a dictionary with the keys \<^verbatim>\<open>rect\<close>, \<^verbatim>\<open>type\<close>, \<^verbatim>\<open>vel_x\<close>,
  \<^verbatim>\<open>orig_y\<close>, \<^verbatim>\<open>state\<close> and \<^verbatim>\<open>vel_y\<close>.
\<close>

record Enemy =
  enemy_rect :: Rect
  enemy_type :: string
  enemy_vel_x :: real
  enemy_orig_y :: int
  enemy_state :: enemy_mode
  enemy_vel_y :: int

text \<open>
  The fields of \<^verbatim>\<open>IntegratedGame\<close> that the game logic reads or writes. The enemy
  dictionaries are mutable objects that the loop over \<^verbatim>\<open>self.active_enemies[:]\<close>
  shares with \<^verbatim>\<open>self.active_enemies\<close>: \<open>enemy_heap\<close> holds every enemy dictionary
  created so far, an enemy's identity is its index there, and \<open>active_enemies\<close> is the list
  of references. \<^verbatim>\<open>self.smw_map_data\<close> is assigned once, to \<open>SMW_STYLE_MAP_DATA\<close>.
\<close>

record Game =
  game_state :: game_mode
  paused :: bool
  paused_from_state :: game_mode
  current_world_on_map :: int
  current_node_on_map :: int
  ow_input_delay_timer :: real
  ow_input_cooldown :: real
  current_level_spec :: "LevelSpec option"
  score :: int
  lives :: int
  time_left :: real
  player_state :: char_state
  invincibility_timer :: int
  player_rect :: Rect
  player_vel_x :: real
  player_vel_y :: real
  player_on_ground :: bool
  camera_offset_x :: int
  level_width :: int
  platform_rects :: "Rect list"
  block_rects :: "Rect list"
  coin_rects :: "Rect list"
  enemy_heap :: "Enemy list"
  active_enemies :: "nat list"
  goal_rect :: "Rect option"
  spatial_grid :: Grid

fun player_sizes :: "char_state \<Rightarrow> int \<times> int" where
  "player_sizes Small = (TILE, TILE + TILE div 2)"
| "player_sizes Big = (TILE, TILE * 2)"
| "player_sizes Fire = (TILE, TILE * 2)"

definition initialize_player_rect :: "Game \<Rightarrow> Game" where
  "initialize_player_rect s =
     (let (w, h) = player_sizes (player_state s)
      in s\<lparr>player_rect := mk_rect 50 (H - (TILE * SCALE) - h) w h\<rparr>)"

definition set_player_level_state :: "char_state \<Rightarrow> Game \<Rightarrow> Game" where
  "set_player_level_state new_char_state s =
     (if player_state s = new_char_state
         \<and> (rect_w (player_rect s), rect_h (player_rect s)) \<noteq> (0, 0) then s
      else
        let old_midbottom = (if rect_w (player_rect s) = 0 then (50, H - (TILE * SCALE))
                             else rect_midbottom (player_rect s))
        in s\<lparr>player_state := new_char_state,
              player_rect := set_midbottom old_midbottom
                               (set_size (player_sizes new_char_state) (player_rect s))\<rparr>)"

definition load_overworld_state :: "Game \<Rightarrow> Game" where
  "load_overworld_state s = s\<lparr>game_state := Overworld, paused := False\<rparr>"

text \<open>The state that \<^verbatim>\<open>__init__\<close> builds.\<close>

definition initial_game :: Game where
  "initial_game = load_overworld_state (initialize_player_rect
     \<lparr>game_state = Overworld, paused = False, paused_from_state = Overworld,
      current_world_on_map = 0, current_node_on_map = 0,
      ow_input_delay_timer = 0, ow_input_cooldown = 18 / 100,
      current_level_spec = None, score = 0, lives = 3, time_left = 300,
      player_state = Small, invincibility_timer = 0,
      player_rect = mk_rect 0 0 TILE (TILE + TILE div 2),
      player_vel_x = 0, player_vel_y = 0, player_on_ground = False,
      camera_offset_x = 0, level_width = W,
      platform_rects = [], block_rects = [], coin_rects = [],
      enemy_heap = [], active_enemies = [], goal_rect = None,
      spatial_grid = new_Grid (TILE * SCALE * 2)\<rparr>)"

subsection \<open>Loading a level\<close>

text \<open>\<^verbatim>\<open>max(...)\<close> of a non-empty list.\<close>

definition max_of :: "int list \<Rightarrow> int" where
  "max_of xs = fold max (tl xs) (hd xs)"

definition new_enemy :: "int \<times> int \<times> string \<Rightarrow> Enemy" where
  "new_enemy d =
     (case d of (ex, ey_bottom, etype) \<Rightarrow>
        let enemy_w = TILE * SCALE;
            enemy_h = (if etype = ''goomba'' then TILE * SCALE
                       else trunc (real_of_int (TILE * SCALE) * (15 / 10)));
            y = H - (TILE * SCALE) - enemy_h;
            rect = mk_rect ex y enemy_w enemy_h;
            vel_x = (if etype = ''goomba'' then - 1 else - (15 / 10))
        in \<lparr>enemy_rect = rect, enemy_type = etype, enemy_vel_x = vel_x,
            enemy_orig_y = rect_y rect, enemy_state = Walking, enemy_vel_y = 0\<rparr>)"

definition load_level_from_spec :: "LevelSpec \<Rightarrow> Game \<Rightarrow> error + Game" where
  "load_level_from_spec spec s =
     (let s = s\<lparr>game_state := Level, paused := False, current_level_spec := Some spec,
                time_left := 300, camera_offset_x := 0\<rparr>;
          s = (if platforms spec \<noteq> []
               then s\<lparr>level_width := max W (max_of (map (\<lambda>(x, y, w, h). x + w) (platforms spec)))\<rparr>
               else s\<lparr>level_width := W\<rparr>);
          s = set_player_level_state Small s;
          s = s\<lparr>player_rect := set_midbottom (TILE * SCALE * 2, H - (TILE * SCALE)) (player_rect s)\<rparr>;
          s = s\<lparr>player_vel_x := 0, player_vel_y := 0, player_on_ground := False,
                invincibility_timer := 0\<rparr>;
          s = s\<lparr>platform_rects := map (\<lambda>(x, y, w, h). mk_rect x y w h) (platforms spec)\<rparr>;
          s = s\<lparr>block_rects := map (\<lambda>(bx, by). mk_rect (bx * TILE * SCALE) (by * TILE * SCALE)
                                                     (TILE * SCALE) (TILE * SCALE)) (blocks spec)\<rparr>;
          s = s\<lparr>coin_rects := map (\<lambda>(cx, cy). mk_rect (cx * TILE * SCALE + (TILE * SCALE - TILE) div 2)
                                                    (cy * TILE * SCALE + (TILE * SCALE - TILE) div 2)
                                                    TILE TILE) (coins spec)\<rparr>;
          s = s\<lparr>active_enemies := [length (enemy_heap s) ..< length (enemy_heap s) + length (enemies spec)],
                enemy_heap := enemy_heap s @ map new_enemy (enemies spec)\<rparr>;
          s = s\<lparr>goal_rect := Some (mk_rect (fst (goal spec)) (snd (goal spec))
                                             (TILE * SCALE) (TILE * SCALE * 2))\<rparr>
      in bind_err (insert_all (platform_rects s @ block_rects s) (Grid_clear (spatial_grid s)))
           (\<lambda>g. Inr (s\<lparr>spatial_grid := g\<rparr>)))"

subsection \<open>Hurt, death and transitions\<close>

definition game_over_transition :: "Game \<Rightarrow> Game" where
  "game_over_transition s = s\<lparr>game_state := Game_over\<rparr>"

definition level_complete_transition :: "Game \<Rightarrow> Game" where
  "level_complete_transition s =
     s\<lparr>game_state := Victory, score := score s + trunc (max 0 (time_left s)) * 10\<rparr>"

definition handle_player_death :: "Game \<Rightarrow> error + Game" where
  "handle_player_death s =
     (let s = s\<lparr>lives := lives s - 1\<rparr>
      in if lives s \<le> 0 then Inr (game_over_transition s)
         else
           let s = s\<lparr>invincibility_timer := FPS * 2\<rparr>
           in case current_level_spec s of
                Some spec \<Rightarrow> load_level_from_spec spec s
              | None \<Rightarrow> Inr (load_overworld_state s))"

definition handle_player_hurt :: "Game \<Rightarrow> error + Game" where
  "handle_player_hurt s =
     (if player_state s = Big \<or> player_state s = Fire
      then Inr ((set_player_level_state Small s)\<lparr>invincibility_timer := FPS * 2\<rparr>)
      else if player_state s = Small then handle_player_death s
      else Inr s)"


subsection \<open>Input\<close>

datatype key = K_LEFT | K_RIGHT | K_UP | K_DOWN | K_RETURN | K_SPACE | K_ESCAPE | K_p | K_other

type_synonym keys = "key \<Rightarrow> bool"

datatype event = QUIT | KEYDOWN key | OTHER_EVENT

subsection \<open>Overworld navigation\<close>

definition update_overworld_map_navigation ::
    "(int \<times> int \<rightharpoonup> LevelSpec) \<Rightarrow> keys \<Rightarrow> real \<Rightarrow> Game \<Rightarrow> error + Game" where
  "update_overworld_map_navigation specs keys dt s =
     (let s = s\<lparr>ow_input_delay_timer := ow_input_delay_timer s - dt\<rparr>
      in if ow_input_delay_timer s > 0 then Inr s
         else
           bind_err (py_nth SMW_STYLE_MAP_DATA (current_world_on_map s)) (\<lambda>world.
             let current_world_nodes = nodes world;
                 num_nodes_in_world = int (length current_world_nodes);
                 num_worlds = int (length SMW_STYLE_MAP_DATA)
             in bind_err
                  (if keys K_RIGHT then
                     bind_err (py_mod (current_node_on_map s + 1) num_nodes_in_world)
                       (\<lambda>n. Inr (s\<lparr>current_node_on_map := n\<rparr>, True))
                   else if keys K_LEFT then
                     bind_err (py_mod (current_node_on_map s - 1 + num_nodes_in_world) num_nodes_in_world)
                       (\<lambda>n. Inr (s\<lparr>current_node_on_map := n\<rparr>, True))
                   else if keys K_UP then
                     bind_err (py_mod (current_world_on_map s + 1) num_worlds)
                       (\<lambda>w. Inr (s\<lparr>current_world_on_map := w, current_node_on_map := 0\<rparr>, True))
                   else if keys K_DOWN then
                     bind_err (py_mod (current_world_on_map s - 1 + num_worlds) num_worlds)
                       (\<lambda>w. Inr (s\<lparr>current_world_on_map := w, current_node_on_map := 0\<rparr>, True))
                   else if keys K_RETURN \<or> keys K_SPACE then
                     bind_err (py_nth current_world_nodes (current_node_on_map s)) (\<lambda>selected_node_data.
                       case specs (level_id selected_node_data) of
                         Some spec \<Rightarrow> bind_err (load_level_from_spec spec s) (\<lambda>s. Inr (s, True))
                       | None \<Rightarrow> Inr (s, True))
                   else Inr (s, False))
                  (\<lambda>(s, moved).
                     Inr (if moved then s\<lparr>ow_input_delay_timer := ow_input_cooldown s\<rparr> else s))))"

subsection \<open>Collision of the player with the level\<close>

datatype direction = Horizontal | Vertical

text \<open>The body of the loop over the rectangles that the grid query returned.\<close>

definition resolve :: "direction \<Rightarrow> Rect \<Rightarrow> Game \<Rightarrow> Game" where
  "resolve d rect s =
     (if colliderect (player_rect s) rect then
        (case d of
           Horizontal \<Rightarrow>
             (let s = (if player_vel_x s > 0
                       then s\<lparr>player_rect := set_right (rect_left rect) (player_rect s)\<rparr>
                       else if player_vel_x s < 0
                       then s\<lparr>player_rect := set_left (rect_right rect) (player_rect s)\<rparr>
                       else s)
              in s\<lparr>player_vel_x := 0\<rparr>)
         | Vertical \<Rightarrow>
             (let s = (if player_vel_y s > 0
                       then s\<lparr>player_rect := set_bottom (rect_top rect) (player_rect s),
                              player_on_ground := True\<rparr>
                       else if player_vel_y s < 0
                       then s\<lparr>player_rect := set_top (rect_bottom rect) (player_rect s)\<rparr>
                       else s)
              in s\<lparr>player_vel_y := 0\<rparr>))
      else s)"

definition handle_level_collisions :: "direction \<Rightarrow> Game \<Rightarrow> error + Game" where
  "handle_level_collisions d s =
     bind_err (Grid_query (spatial_grid s) (player_rect s))
       (\<lambda>collidables. Inr (fold (resolve d) collidables s))"

subsection \<open>The level tick\<close>

text \<open>
  \<^verbatim>\<open>update_level_gameplay\<close> in the order of the source: input and gravity, horizontal
  move and collisions, vertical move and collisions, camera, enemies, coins, goal, timers.
\<close>

definition player_input :: "keys \<Rightarrow> real \<Rightarrow> Game \<Rightarrow> Game" where
  "player_input keys dt s =
     (let s = s\<lparr>player_vel_x := 0\<rparr>;
          s = (if keys K_LEFT then s\<lparr>player_vel_x := - 300 * dt\<rparr> else s);
          s = (if keys K_RIGHT then s\<lparr>player_vel_x := 300 * dt\<rparr> else s);
          s = (if keys K_SPACE \<and> player_on_ground s
               then s\<lparr>player_vel_y := JUMP_VEL, player_on_ground := False\<rparr> else s);
          s = s\<lparr>player_vel_y := player_vel_y s + GRAVITY\<rparr>
      in if player_vel_y s > 15 then s\<lparr>player_vel_y := 15\<rparr> else s)"

definition move_x :: "Game \<Rightarrow> Game" where
  "move_x s = s\<lparr>player_rect := (player_rect s)
       \<lparr>rect_x := trunc (real_of_int (rect_x (player_rect s)) + player_vel_x s)\<rparr>\<rparr>"

definition move_y :: "Game \<Rightarrow> Game" where
  "move_y s = s\<lparr>player_rect := (player_rect s)
       \<lparr>rect_y := trunc (real_of_int (rect_y (player_rect s)) + player_vel_y s)\<rparr>,
     player_on_ground := False\<rparr>"

definition update_camera :: "Game \<Rightarrow> Game" where
  "update_camera s =
     (let target_camera_x = rect_centerx (player_rect s) - W div 2
      in s\<lparr>camera_offset_x := max 0 (min target_camera_x (level_width s - W))\<rparr>)"

text \<open>The movement of a walking enemy: the step and the reversal at the level bounds.\<close>

definition move_enemy :: "real \<Rightarrow> int \<Rightarrow> Enemy \<Rightarrow> Enemy" where
  "move_enemy dt lw e =
     (let e = e\<lparr>enemy_rect := (enemy_rect e)
                 \<lparr>rect_x := trunc (real_of_int (rect_x (enemy_rect e)) + enemy_vel_x e * 100 * dt)\<rparr>\<rparr>
      in if rect_left (enemy_rect e) < 0 \<or> rect_right (enemy_rect e) > lw
         then e\<lparr>enemy_vel_x := enemy_vel_x e * (- 1)\<rparr> else e)"

text \<open>
  \<^verbatim>\<open>list.remove(x)\<close> removes the first element equal to \<open>x\<close> and raises
  \<^verbatim>\<open>ValueError\<close> when there is none. Dictionaries are compared by their contents.
\<close>

definition remove_enemy :: "nat \<Rightarrow> Game \<Rightarrow> error + Game" where
  "remove_enemy i s =
     (case find (\<lambda>j. enemy_heap s ! j = enemy_heap s ! i) (active_enemies s) of
        None \<Rightarrow> Inl ValueError
      | Some j \<Rightarrow> Inr (s\<lparr>active_enemies := remove1 j (active_enemies s)\<rparr>))"

text \<open>The body of the loop over the enemies, for the enemy with reference \<open>i\<close>.\<close>

definition update_enemy :: "real \<Rightarrow> nat \<Rightarrow> Game \<Rightarrow> error + Game" where
  "update_enemy dt i s =
     (case enemy_state (enemy_heap s ! i) of
        Walking \<Rightarrow>
          (let e = move_enemy dt (level_width s) (enemy_heap s ! i);
               s = s\<lparr>enemy_heap := (enemy_heap s)[i := e]\<rparr>
           in if colliderect (player_rect s) (enemy_rect e) then
                if player_vel_y s > 0 \<and> rect_bottom (player_rect s) < rect_centery (enemy_rect e)
                then Inr (s\<lparr>enemy_heap := (enemy_heap s)[i := e\<lparr>enemy_state := Stomped\<rparr>],
                            player_vel_y := JUMP_VEL * (6 / 10),
                            score := score s + 100\<rparr>)
                else if invincibility_timer s \<le> 0 then handle_player_hurt s
                else Inr s
              else Inr s)
      | Stomped \<Rightarrow> remove_enemy i s)"

definition update_enemies :: "real \<Rightarrow> Game \<Rightarrow> error + Game" where
  "update_enemies dt s = for_each (update_enemy dt) (active_enemies s) s"

definition collect_coin :: "Rect \<Rightarrow> Game \<Rightarrow> error + Game" where
  "collect_coin coin_rect s =
     (if colliderect (player_rect s) coin_rect then
        if coin_rect \<in> set (coin_rects s)
        then Inr (s\<lparr>coin_rects := remove1 coin_rect (coin_rects s), score := score s + 50\<rparr>)
        else Inl ValueError
      else Inr s)"

definition collect_coins :: "Game \<Rightarrow> error + Game" where
  "collect_coins s = for_each collect_coin (coin_rects s) s"

text \<open>A rectangle is true in a condition when neither its width nor its height is zero.\<close>

definition rect_bool :: "Rect \<Rightarrow> bool" where
  "rect_bool r = (rect_w r \<noteq> 0 \<and> rect_h r \<noteq> 0)"

definition goal_reached :: "Game \<Rightarrow> bool" where
  "goal_reached s =
     (case goal_rect s of None \<Rightarrow> False
      | Some g \<Rightarrow> rect_bool g \<and> colliderect (player_rect s) g)"

text \<open>What follows the goal check when the goal is not reached.\<close>

definition timers_and_bounds :: "real \<Rightarrow> Game \<Rightarrow> error + Game" where
  "timers_and_bounds dt s =
     (let s = (if invincibility_timer s > 0
               then s\<lparr>invincibility_timer := invincibility_timer s - 1\<rparr> else s);
          s = s\<lparr>time_left := time_left s - dt\<rparr>
      in bind_err (if time_left s \<le> 0 then handle_player_death s else Inr s)
           (\<lambda>s. if rect_top (player_rect s) > H then handle_player_death s else Inr s))"

definition goal_check :: "real \<Rightarrow> Game \<Rightarrow> error + Game" where
  "goal_check dt s =
     (if goal_reached s then Inr (level_complete_transition s)
      else timers_and_bounds dt s)"

text \<open>The state of the tick when the goal check is reached.\<close>

definition before_goal_check :: "keys \<Rightarrow> real \<Rightarrow> Game \<Rightarrow> error + Game" where
  "before_goal_check keys dt s =
     bind_err (handle_level_collisions Horizontal (move_x (player_input keys dt s))) (\<lambda>s.
     bind_err (handle_level_collisions Vertical (move_y s)) (\<lambda>s.
     bind_err (update_enemies dt (update_camera s)) collect_coins))"

definition update_level_gameplay :: "keys \<Rightarrow> real \<Rightarrow> Game \<Rightarrow> error + Game" where
  "update_level_gameplay keys dt s =
     (if current_level_spec s = None then Inr s
      else bind_err (before_goal_check keys dt s) (goal_check dt))"

subsection \<open>The frame loop\<close>

text \<open>
  One event of the event loop. \<open>None\<close> is the \<^verbatim>\<open>return\<close> that leaves the game loop.
\<close>

definition handle_event :: "event \<Rightarrow> Game \<Rightarrow> Game option" where
  "handle_event ev s =
     (case ev of
        QUIT \<Rightarrow> None
      | OTHER_EVENT \<Rightarrow> Some s
      | KEYDOWN k \<Rightarrow>
          (case (if k = K_ESCAPE then
                   if game_state s = Level then Some (load_overworld_state s)
                   else if game_state s = Overworld then None
                   else if game_state s = Game_over \<or> game_state s = Victory
                   then Some (load_overworld_state s)
                   else Some s
                 else Some s) of
             None \<Rightarrow> None
           | Some s \<Rightarrow>
               let s = (if k = K_p then
                          if game_state s \<noteq> Game_over \<and> game_state s \<noteq> Victory then
                            let s = s\<lparr>paused := \<not> paused s\<rparr>
                            in if paused s then s\<lparr>paused_from_state := game_state s\<rparr>
                               else s\<lparr>game_state := paused_from_state s\<rparr>
                          else s
                        else s);
                   s = (if game_state s = Game_over \<and> k = K_RETURN
                        then load_overworld_state (s\<lparr>score := 0, lives := 3\<rparr>) else s);
                   s = (if game_state s = Victory \<and> k = K_RETURN
                        then load_overworld_state s else s)
               in Some s))"

fun handle_events :: "event list \<Rightarrow> Game \<Rightarrow> Game option" where
  "handle_events [] s = Some s"
| "handle_events (ev # evs) s =
     (case handle_event ev s of None \<Rightarrow> None | Some s \<Rightarrow> handle_events evs s)"

text \<open>The update that follows the events of a frame.\<close>

definition update_frame ::
    "(int \<times> int \<rightharpoonup> LevelSpec) \<Rightarrow> keys \<Rightarrow> real \<Rightarrow> Game \<Rightarrow> error + Game" where
  "update_frame specs keys dt s =
     (if paused s then Inr s
      else if game_state s = Overworld then update_overworld_map_navigation specs keys dt s
      else if game_state s = Level then
        (if current_level_spec s \<noteq> None then update_level_gameplay keys dt s
         else Inr (load_overworld_state s))
      else Inr s)"

text \<open>
  One pass of the \<^verbatim>\<open>while running\<close> loop: the events of the frame, the keys held and
  the frame time. \<open>Inr None\<close> is the end of the loop.
\<close>

definition frame ::
    "(int \<times> int \<rightharpoonup> LevelSpec) \<Rightarrow> event list \<times> keys \<times> real \<Rightarrow> Game \<Rightarrow> error + Game option" where
  "frame specs inp s =
     (case inp of (evs, keys, dt) \<Rightarrow>
        (case handle_events evs s of
           None \<Rightarrow> Inr None
         | Some s \<Rightarrow> bind_err (update_frame specs keys dt s) (\<lambda>s. Inr (Some s))))"

fun run_frames ::
    "(int \<times> int \<rightharpoonup> LevelSpec) \<Rightarrow> (event list \<times> keys \<times> real) list \<Rightarrow> Game \<Rightarrow> error + Game option" where
  "run_frames specs [] s = Inr (Some s)"
| "run_frames specs (inp # inps) s =
     bind_err (frame specs inp s)
       (\<lambda>r. case r of None \<Rightarrow> Inr None | Some s \<Rightarrow> run_frames specs inps s)"


subsection \<open>Auxiliary notions for the proofs about the grid\<close>

text \<open>
  \<open>scan\<close> is the nest of loops of the query and \<open>fill\<close> that of the insertion, over
  explicit lists of cell columns and rows. \<open>good\<close> relates the set \<open>seen\<close> to the list
  returned so far. A grid \<open>covers\<close> a rectangle when the rectangle is filed under every
  cell of its cell range.
\<close>

definition scan :: "(int \<times> int \<rightharpoonup> Rect list) \<Rightarrow> int list \<Rightarrow> int list \<Rightarrow> _ \<Rightarrow> _" where
  "scan c xs ys st = fold (\<lambda>cx. fold (\<lambda>cy. fold visit (bucket c (cx, cy))) ys) xs st"

definition good :: "(int \<times> int \<times> int \<times> int) set \<times> Rect list \<Rightarrow> bool" where
  "good st = (fst st = r_tuple ` set (snd st) \<and> distinct (snd st))"

definition fill :: "Rect \<Rightarrow> int list \<Rightarrow> int list \<Rightarrow> (int \<times> int \<rightharpoonup> Rect list) \<Rightarrow> (int \<times> int \<rightharpoonup> Rect list)" where
  "fill r xs ys c = fold (\<lambda>cx. fold (\<lambda>cy. cell_append r (cx, cy)) ys) xs c"

definition covers :: "Grid \<Rightarrow> Rect \<Rightarrow> bool" where
  "covers g r = (\<forall>cx cy. rect_left r div cell_size g \<le> cx \<and> cx \<le> rect_right r div cell_size g
       \<and> rect_top r div cell_size g \<le> cy \<and> cy \<le> rect_bottom r div cell_size g
       \<longrightarrow> r \<in> set (bucket (cells g) (cx, cy)))"

subsection \<open>Auxiliary notions for the proofs about the game\<close>

text \<open>
  \<open>level_rects\<close> are the rectangles that the loader files in the grid, and
  \<open>loaded spec s g\<close> is the state that the loader leaves when it started in \<open>s\<close> and
  the grid it filled is \<open>g\<close>. \<open>num_nodes w\<close> is the number of nodes of world \<open>w\<close>.
\<close>

definition level_rects :: "LevelSpec \<Rightarrow> Rect list" where
  "level_rects spec =
     map (\<lambda>(x, y, w, h). mk_rect x y w h) (platforms spec) @
     map (\<lambda>(bx, by). mk_rect (bx * TILE * SCALE) (by * TILE * SCALE) (TILE * SCALE) (TILE * SCALE))
       (blocks spec)"

definition loaded :: "LevelSpec \<Rightarrow> Game \<Rightarrow> Grid \<Rightarrow> Game" where
  "loaded spec s g =
     (set_player_level_state Small
        (s\<lparr>game_state := Level, paused := False, current_level_spec := Some spec,
           time_left := 300, camera_offset_x := 0,
           level_width := (if platforms spec \<noteq> []
               then max W (max_of (map (\<lambda>(x, y, w, h). x + w) (platforms spec))) else W)\<rparr>))
     \<lparr>player_rect := set_midbottom (TILE * SCALE * 2, H - (TILE * SCALE))
        (player_rect (set_player_level_state Small s)),
      player_vel_x := 0, player_vel_y := 0, player_on_ground := False, invincibility_timer := 0,
      platform_rects := map (\<lambda>(x, y, w, h). mk_rect x y w h) (platforms spec),
      block_rects := map (\<lambda>(bx, by). mk_rect (bx * TILE * SCALE) (by * TILE * SCALE)
                                                     (TILE * SCALE) (TILE * SCALE)) (blocks spec),
      coin_rects := map (\<lambda>(cx, cy). mk_rect (cx * TILE * SCALE + (TILE * SCALE - TILE) div 2)
                                                    (cy * TILE * SCALE + (TILE * SCALE - TILE) div 2)
                                                    TILE TILE) (coins spec),
      active_enemies := [length (enemy_heap s) ..< length (enemy_heap s) + length (enemies spec)],
      enemy_heap := enemy_heap s @ map new_enemy (enemies spec),
      goal_rect := Some (mk_rect (fst (goal spec)) (snd (goal spec)) (TILE * SCALE) (TILE * SCALE * 2)),
      spatial_grid := g\<rparr>"

definition num_nodes :: "int \<Rightarrow> int" where
  "num_nodes w = int (length (nodes (SMW_STYLE_MAP_DATA ! nat w)))"


text \<open>
  \<open>vel_along\<close> is the player's velocity on the axis that a collision pass resolves and
  \<open>push_out\<close> the position that a resolution gives the player's rectangle against an
  obstacle. \<open>time_rel\<close> relates two states when the later one has the earlier one's
  remaining time or that of a fresh level.
\<close>

definition vel_along :: "direction \<Rightarrow> Game \<Rightarrow> real" where
  "vel_along d s = (case d of Horizontal \<Rightarrow> player_vel_x s | Vertical \<Rightarrow> player_vel_y s)"

definition push_out :: "direction \<Rightarrow> real \<Rightarrow> Rect \<Rightarrow> Rect \<Rightarrow> Rect" where
  "push_out d v rect p =
     (case d of
        Horizontal \<Rightarrow> (if v > 0 then set_right (rect_left rect) p else set_left (rect_right rect) p)
      | Vertical \<Rightarrow> (if v > 0 then set_bottom (rect_top rect) p else set_top (rect_bottom rect) p))"

definition time_rel :: "Game \<Rightarrow> Game \<Rightarrow> bool" where
  "time_rel s t = (time_left t = time_left s \<or> time_left t = 300)"

text \<open>
  \<open>level_ok\<close>: whenever the game is in a level, or paused from a level, the remaining
  time is positive.
\<close>

definition level_ok :: "Game \<Rightarrow> bool" where
  "level_ok s = ((game_state s = Level \<or> (paused s \<and> paused_from_state s = Level)) \<longrightarrow> 0 < time_left s)"

subsection \<open>Example states\<close>

text \<open>
  \<open>entered spec\<close> is the state in which the game enters a level from its initial
  state, \<open>no_keys\<close> the keyboard with no key held, \<open>enemy_rects\<close> the rectangles of
  the active enemies, and \<open>bump_level\<close> a level whose second platform rises three
  pixels above the ground.
\<close>

definition no_keys :: keys where "no_keys = (\<lambda>k. False)"

definition entered :: "LevelSpec \<Rightarrow> Game" where
  "entered spec = (case load_level_from_spec spec initial_game of Inr t \<Rightarrow> t | Inl e \<Rightarrow> initial_game)"

definition enemy_rects :: "Game \<Rightarrow> Rect list" where
  "enemy_rects t = map (\<lambda>i. enemy_rect (enemy_heap t ! i)) (active_enemies t)"

definition bump_level :: LevelSpec where
  "bump_level = \<lparr>name = ''bump'', platforms = [(0, 368, 640, 32), (200, 365, 100, 35)],
     blocks = [], coins = [], enemies = [], goal = (580, 304), background_color = sky\<rparr>"

section \<open>Properties\<close>

lemmas constants_defs = W_def H_def FPS_def GRAVITY_def JUMP_VEL_def TILE_def SCALE_def

lemmas rect_defs = mk_rect_def rect_left_def rect_top_def rect_right_def rect_bottom_def
  rect_centerx_def rect_centery_def rect_midbottom_def set_right_def set_left_def set_bottom_def
  set_top_def set_size_def set_midbottom_def

lemma bind_err_simps [simp]:
  "bind_err (Inl e) f = Inl e"
  "bind_err (Inr a) f = f a"
  by (simp_all add: bind_err_def)

subsection \<open>The spatial grid\<close>


lemma fold_visit_inv:
  "fst st = r_tuple ` set (snd st) \<Longrightarrow> fst (fold visit rs st) = r_tuple ` set (snd (fold visit rs st))"
  by (induction rs arbitrary: st) (auto simp: visit_def)

lemma r_tuple_inj: "r_tuple a = r_tuple (b::Rect) \<Longrightarrow> a = b"
  by (cases a, cases b) (simp add: r_tuple_def)

lemma visit_mono: "set (snd st) \<subseteq> set (snd (visit r st))"
  by (auto simp: visit_def)

lemma fold_visit_mono: "set (snd st) \<subseteq> set (snd (fold visit rs st))"
proof (induction rs arbitrary: st)
  case Nil show ?case by simp
next
  case (Cons a rs)
  have "set (snd st) \<subseteq> set (snd (visit a st))" by (rule visit_mono)
  also have "\<dots> \<subseteq> set (snd (fold visit rs (visit a st)))" by (rule Cons.IH)
  finally show ?case by simp
qed

lemma visit_adds:
  "fst st = r_tuple ` set (snd st) \<Longrightarrow> r \<in> set (snd (visit r st))"
  by (auto simp: visit_def dest: r_tuple_inj)

lemma visit_inv: "fst st = r_tuple ` set (snd st) \<Longrightarrow> fst (visit r st) = r_tuple ` set (snd (visit r st))"
  by (auto simp: visit_def)

lemma fold_visit_adds:
  "fst st = r_tuple ` set (snd st) \<Longrightarrow> r \<in> set rs \<Longrightarrow> r \<in> set (snd (fold visit rs st))"
proof (induction rs arbitrary: st)
  case Nil then show ?case by simp
next
  case (Cons a rs)
  show ?case
  proof (cases "r = a")
    case True
    have "r \<in> set (snd (visit a st))" unfolding True using Cons.prems(1) by (rule visit_adds)
    then show ?thesis using fold_visit_mono[of "visit a st" rs] by auto
  next
    case False
    then have "r \<in> set rs" using Cons.prems(2) by simp
    then show ?thesis using Cons.IH[OF visit_inv[OF Cons.prems(1)]] by simp
  qed
qed

lemma fold_visit_distinct:
  "fst st = r_tuple ` set (snd st) \<Longrightarrow> distinct (snd st) \<Longrightarrow> distinct (snd (fold visit rs st))"
proof (induction rs arbitrary: st)
  case Nil then show ?case by simp
next
  case (Cons a rs)
  have d: "distinct (snd (visit a st))" using Cons.prems by (auto simp: visit_def)
  show ?case using Cons.IH[OF visit_inv[OF Cons.prems(1)] d] by simp
qed



lemma good_fold_visit: "good st \<Longrightarrow> good (fold visit rs st)"
  unfolding good_def by (intro conjI fold_visit_inv fold_visit_distinct) simp_all

lemma good_col: "good st \<Longrightarrow> good (fold (\<lambda>cy. fold visit (bucket c (cx, cy))) ys st)"
  by (induction ys arbitrary: st) (simp_all add: good_fold_visit)

lemma good_scan: "good st \<Longrightarrow> good (scan c xs ys st)"
  unfolding scan_def by (induction xs arbitrary: st) (simp_all add: good_col)

lemma col_mono: "set (snd st) \<subseteq> set (snd (fold (\<lambda>cy. fold visit (bucket c (cx, cy))) ys st))"
proof (induction ys arbitrary: st)
  case Nil show ?case by simp
next
  case (Cons y ys)
  show ?case using fold_visit_mono[of st "bucket c (cx, y)"] Cons.IH[of "fold visit (bucket c (cx, y)) st"]
    by auto
qed

lemma scan_mono: "set (snd st) \<subseteq> set (snd (scan c xs ys st))"
  unfolding scan_def
proof (induction xs arbitrary: st)
  case Nil show ?case by simp
next
  case (Cons x xs)
  show ?case using col_mono[of st c x ys] Cons.IH[of "fold (\<lambda>cy. fold visit (bucket c (x, cy))) ys st"]
    by auto
qed

lemma col_finds:
  "good st \<Longrightarrow> cy \<in> set ys \<Longrightarrow> r \<in> set (bucket c (cx, cy))
   \<Longrightarrow> r \<in> set (snd (fold (\<lambda>cy. fold visit (bucket c (cx, cy))) ys st))"
proof (induction ys arbitrary: st)
  case Nil then show ?case by simp
next
  case (Cons y ys)
  let ?st = "fold visit (bucket c (cx, y)) st"
  have g: "good ?st" using Cons.prems(1) by (rule good_fold_visit)
  show ?case
  proof (cases "cy = y")
    case True
    have "fst st = r_tuple ` set (snd st)" using Cons.prems(1) by (simp add: good_def)
    moreover have "r \<in> set (bucket c (cx, y))" using Cons.prems(3) True by simp
    ultimately have "r \<in> set (snd ?st)" by (rule fold_visit_adds)
    then show ?thesis using col_mono[of ?st c cx ys] by auto
  next
    case False
    then have "cy \<in> set ys" using Cons.prems(2) by simp
    then show ?thesis using Cons.IH[OF g _ Cons.prems(3)] by simp
  qed
qed

lemma scan_finds:
  "good st \<Longrightarrow> cx \<in> set xs \<Longrightarrow> cy \<in> set ys \<Longrightarrow> r \<in> set (bucket c (cx, cy))
   \<Longrightarrow> r \<in> set (snd (scan c xs ys st))"
proof (induction xs arbitrary: st)
  case Nil then show ?case by simp
next
  case (Cons x xs)
  let ?st = "fold (\<lambda>cy. fold visit (bucket c (x, cy))) ys st"
  have g: "good ?st" using Cons.prems(1) by (rule good_col)
  show ?case
  proof (cases "cx = x")
    case True
    have "r \<in> set (bucket c (x, cy))" using Cons.prems(4) True by simp
    with Cons.prems(1) Cons.prems(3) have "r \<in> set (snd ?st)" by (rule col_finds)
    then show ?thesis using scan_mono[of ?st c xs ys] by (auto simp: scan_def)
  next
    case False
    then have "cx \<in> set xs" using Cons.prems(2) by simp
    then show ?thesis using Cons.IH[OF g _ Cons.prems(3) Cons.prems(4)] by (simp add: scan_def)
  qed
qed




lemma cell_append_mono: "set (bucket c k) \<subseteq> set (bucket (cell_append r k' c) k)"
  by (auto simp: cell_append_def bucket_def)

lemma cell_append_adds: "r \<in> set (bucket (cell_append r k c) k)"
  by (simp add: cell_append_def bucket_def)

lemma fill_col_mono: "set (bucket c k) \<subseteq> set (bucket (fold (\<lambda>cy. cell_append r (cx, cy)) ys c) k)"
proof (induction ys arbitrary: c)
  case Nil show ?case by simp
next
  case (Cons y ys)
  have "set (bucket c k) \<subseteq> set (bucket (cell_append r (cx, y) c) k)" by (rule cell_append_mono)
  also have "\<dots> \<subseteq> set (bucket (fold (\<lambda>cy. cell_append r (cx, cy)) ys (cell_append r (cx, y) c)) k)"
    by (rule Cons.IH)
  finally show ?case by simp
qed

lemma fill_mono: "set (bucket c k) \<subseteq> set (bucket (fill r xs ys c) k)"
  unfolding fill_def
proof (induction xs arbitrary: c)
  case Nil show ?case by simp
next
  case (Cons x xs)
  let ?c = "fold (\<lambda>cy. cell_append r (x, cy)) ys c"
  have "set (bucket c k) \<subseteq> set (bucket ?c k)" by (rule fill_col_mono)
  also have "\<dots> \<subseteq> set (bucket (fold (\<lambda>cx. fold (\<lambda>cy. cell_append r (cx, cy)) ys) xs ?c) k)"
    by (rule Cons.IH)
  finally show ?case by simp
qed

lemma fill_col_adds:
  "cy \<in> set ys \<Longrightarrow> r \<in> set (bucket (fold (\<lambda>cy. cell_append r (cx, cy)) ys c) (cx, cy))"
proof (induction ys arbitrary: c)
  case Nil then show ?case by simp
next
  case (Cons y ys)
  show ?case
  proof (cases "cy = y")
    case True
    have "r \<in> set (bucket (cell_append r (cx, y) c) (cx, y))" by (rule cell_append_adds)
    then show ?thesis using fill_col_mono[of "cell_append r (cx, y) c" "(cx, y)" r cx ys] True by auto
  next
    case False
    then have "cy \<in> set ys" using Cons.prems by simp
    then show ?thesis using Cons.IH by simp
  qed
qed

lemma fill_adds:
  "cx \<in> set xs \<Longrightarrow> cy \<in> set ys \<Longrightarrow> r \<in> set (bucket (fill r xs ys c) (cx, cy))"
proof (induction xs arbitrary: c)
  case Nil then show ?case by simp
next
  case (Cons x xs)
  let ?c = "fold (\<lambda>cy. cell_append r (x, cy)) ys c"
  show ?case
  proof (cases "cx = x")
    case True
    have "r \<in> set (bucket ?c (cx, cy))" unfolding True using Cons.prems(2) by (rule fill_col_adds)
    then show ?thesis using fill_mono[of ?c "(cx, cy)" r xs ys] by (auto simp: fill_def)
  next
    case False
    then have "cx \<in> set xs" using Cons.prems(1) by simp
    then show ?thesis using Cons.IH[OF _ Cons.prems(2)] by (simp add: fill_def)
  qed
qed

lemma Grid_insert_unfold:
  "cell_size g \<noteq> 0 \<Longrightarrow> Grid_insert g r =
     Inr (g\<lparr>cells := fill r [rect_left r div cell_size g..rect_right r div cell_size g]
                        [rect_top r div cell_size g..rect_bottom r div cell_size g] (cells g)\<rparr>)"
  by (simp add: Grid_insert_def fill_def Let_def)

lemma Grid_query_unfold:
  "cell_size g \<noteq> 0 \<Longrightarrow> Grid_query g q =
     Inr (snd (scan (cells g) [rect_left q div cell_size g..rect_right q div cell_size g]
                        [rect_top q div cell_size g..rect_bottom q div cell_size g] ({}, [])))"
  by (simp add: Grid_query_def scan_def Let_def)

lemma Grid_insert_cell_size: "Grid_insert g r = Inr g' \<Longrightarrow> cell_size g' = cell_size g"
  by (auto simp: Grid_insert_def Let_def split: if_splits)

lemma Grid_insert_covers_new:
  assumes "Grid_insert g r = Inr g'"
  shows "covers g' r"
proof -
  have nz: "cell_size g \<noteq> 0" using assms by (auto simp: Grid_insert_def split: if_splits)
  show ?thesis using assms unfolding Grid_insert_unfold[OF nz] covers_def
    by (auto intro!: fill_adds)
qed

lemma Grid_insert_covers_old:
  assumes "Grid_insert g r = Inr g'" "covers g r0"
  shows "covers g' r0"
proof -
  have nz: "cell_size g \<noteq> 0" using assms by (auto simp: Grid_insert_def split: if_splits)
  show ?thesis using assms fill_mono unfolding Grid_insert_unfold[OF nz] covers_def
    by fastforce
qed

lemma insert_all_cell_size: "insert_all rs g = Inr g' \<Longrightarrow> cell_size g' = cell_size g"
  unfolding insert_all_def
proof (induction rs arbitrary: g)
  case Nil then show ?case by simp
next
  case (Cons a rs)
  then obtain g1 where a: "Grid_insert g a = Inr g1"
    and b: "for_each (\<lambda>r g. Grid_insert g r) rs g1 = Inr g'"
    by (cases "Grid_insert g a") auto
  show ?case using Cons.IH[OF b] Grid_insert_cell_size[OF a] by simp
qed

lemma insert_all_covers_old: "insert_all rs g = Inr g' \<Longrightarrow> covers g r0 \<Longrightarrow> covers g' r0"
  unfolding insert_all_def
proof (induction rs arbitrary: g)
  case Nil then show ?case by simp
next
  case (Cons a rs)
  then obtain g1 where a: "Grid_insert g a = Inr g1"
    and b: "for_each (\<lambda>r g. Grid_insert g r) rs g1 = Inr g'"
    by (cases "Grid_insert g a") auto
  show ?case using Cons.IH[OF b Grid_insert_covers_old[OF a Cons.prems(2)]] .
qed

lemma insert_all_covers: "insert_all rs g = Inr g' \<Longrightarrow> r \<in> set rs \<Longrightarrow> covers g' r"
proof (induction rs arbitrary: g)
  case Nil then show ?case by simp
next
  case (Cons a rs)
  then obtain g1 where a: "Grid_insert g a = Inr g1"
    and b: "insert_all rs g1 = Inr g'"
    by (cases "Grid_insert g a") (auto simp: insert_all_def)
  show ?case
  proof (cases "r = a")
    case True
    show ?thesis unfolding True using b Grid_insert_covers_new[OF a] by (rule insert_all_covers_old)
  next
    case False
    then have "r \<in> set rs" using Cons.prems(2) by simp
    with b show ?thesis by (rule Cons.IH)
  qed
qed

lemma shared_cell:
  fixes cs :: int
  assumes "0 < cs" "al < ar" "bl < br" "al < br" "bl < ar"
  shows "\<exists>c. al div cs \<le> c \<and> c \<le> ar div cs \<and> bl div cs \<le> c \<and> c \<le> br div cs"
proof -
  let ?p = "max al bl"
  have "al div cs \<le> ?p div cs" "?p div cs \<le> ar div cs" "bl div cs \<le> ?p div cs" "?p div cs \<le> br div cs"
    using assms by (auto intro!: zdiv_mono1)
  then show ?thesis by blast
qed

lemma colliderect_pos:
  assumes "0 < rect_w a" "0 < rect_h a" "0 < rect_w b" "0 < rect_h b"
  shows "colliderect a b \<longleftrightarrow> rect_left a < rect_right b \<and> rect_top a < rect_bottom b
           \<and> rect_right a > rect_left b \<and> rect_bottom a > rect_top b"
  using assms by (simp add: colliderect_def rect_left_def rect_right_def rect_top_def rect_bottom_def
      min_def max_def)

lemma covers_query:
  assumes cs: "0 < cell_size g" and cov: "covers g r"
    and pos: "0 < rect_w r" "0 < rect_h r" "0 < rect_w q" "0 < rect_h q"
    and col: "colliderect q r"
  shows "\<exists>out. Grid_query g q = Inr out \<and> r \<in> set out"
proof -
  have ov: "rect_left q < rect_right r" "rect_top q < rect_bottom r"
    "rect_left r < rect_right q" "rect_top r < rect_bottom q"
    using col colliderect_pos[OF pos(3,4) pos(1,2)] by auto
  have w: "rect_left q < rect_right q" "rect_left r < rect_right r"
    "rect_top q < rect_bottom q" "rect_top r < rect_bottom r"
    using pos by (auto simp: rect_left_def rect_right_def rect_top_def rect_bottom_def)
  obtain cx where cx: "rect_left q div cell_size g \<le> cx" "cx \<le> rect_right q div cell_size g"
      "rect_left r div cell_size g \<le> cx" "cx \<le> rect_right r div cell_size g"
    using shared_cell[OF cs w(1) w(2) ov(1) ov(3)] by blast
  obtain cy where cy: "rect_top q div cell_size g \<le> cy" "cy \<le> rect_bottom q div cell_size g"
      "rect_top r div cell_size g \<le> cy" "cy \<le> rect_bottom r div cell_size g"
    using shared_cell[OF cs w(3) w(4) ov(2) ov(4)] by blast
  have inb: "r \<in> set (bucket (cells g) (cx, cy))"
    using cov cx cy unfolding covers_def by blast
  have g0: "good ({}, [])" by (simp add: good_def)
  have "r \<in> set (snd (scan (cells g) [rect_left q div cell_size g..rect_right q div cell_size g]
                        [rect_top q div cell_size g..rect_bottom q div cell_size g] ({}, [])))"
    using g0 _ _ inb by (rule scan_finds) (use cx cy in simp_all)
  then show ?thesis using cs by (simp add: Grid_query_unfold)
qed

lemma insert_all_total: "cell_size g \<noteq> 0 \<Longrightarrow> \<exists>g'. insert_all rs g = Inr g'"
proof (induction rs arbitrary: g)
  case Nil show ?case by (simp add: insert_all_def)
next
  case (Cons a rs)
  obtain g1 where a: "Grid_insert g a = Inr g1"
    using Cons.prems by (simp add: Grid_insert_unfold)
  have "cell_size g1 \<noteq> 0" using Grid_insert_cell_size[OF a] Cons.prems by simp
  then obtain g' where "insert_all rs g1 = Inr g'" using Cons.IH by blast
  then show ?case using a by (simp add: insert_all_def)
qed

text \<open>
  Claim C10 (broad-phase completeness). Take a grid with a positive cell size, clear it and
  insert a list of rectangles. For every inserted rectangle \<open>r\<close> and every query rectangle
  \<open>q\<close>, both of positive width and height, that collide, the query on \<open>q\<close> returns a
  list, and the list holds a rectangle with the bounds of \<open>r\<close>: the broad phase does not
  miss an overlapping static rectangle.
\<close>

theorem Grid_query_complete:
  assumes "0 < cell_size g" and "r \<in> set rs"
    and "0 < rect_w r" "0 < rect_h r" "0 < rect_w q" "0 < rect_h q"
    and "colliderect q r"
  shows "\<exists>out. query_after rs (Grid_clear g) q = Inr out \<and> r \<in> set out"
proof -
  have "cell_size (Grid_clear g) \<noteq> 0" using assms(1) by (simp add: Grid_clear_def)
  then obtain g' where g': "insert_all rs (Grid_clear g) = Inr g'"
    using insert_all_total by blast
  have "cell_size g' = cell_size g" using insert_all_cell_size[OF g'] by (simp add: Grid_clear_def)
  then have cs: "0 < cell_size g'" using assms(1) by simp
  have "covers g' r" using g' assms(2) by (rule insert_all_covers)
  with cs have "\<exists>out. Grid_query g' q = Inr out \<and> r \<in> set out"
    using assms(3-7) by (rule covers_query)
  then show ?thesis using g' by (simp add: query_after_def)
qed

lemmas grid_eval = query_after_def insert_all_def Grid_insert_def Grid_query_def new_Grid_def
  Grid_clear_def cell_append_def bucket_def visit_def r_tuple_def colliderect_def

theorem Grid_query_complete_witness:
  "0 < cell_size (new_Grid 64) \<and> mk_rect 0 368 640 32 \<in> set [mk_rect 100 304 150 32, mk_rect 0 368 640 32]
   \<and> colliderect (mk_rect 56 345 16 24) (mk_rect 0 368 640 32)
   \<and> (\<exists>out. query_after [mk_rect 100 304 150 32, mk_rect 0 368 640 32] (Grid_clear (new_Grid 64))
                (mk_rect 56 345 16 24) = Inr out \<and> mk_rect 0 368 640 32 \<in> set out)"
proof -
  have h: "0 < cell_size (new_Grid 64)"
    "mk_rect 0 368 640 32 \<in> set [mk_rect 100 304 150 32, mk_rect 0 368 640 32]"
    "0 < rect_w (mk_rect 0 368 640 32)" "0 < rect_h (mk_rect 0 368 640 32)"
    "0 < rect_w (mk_rect 56 345 16 24)" "0 < rect_h (mk_rect 56 345 16 24)"
    "colliderect (mk_rect 56 345 16 24) (mk_rect 0 368 640 32)"
    by (simp_all add: new_Grid_def mk_rect_def colliderect_def)
  show ?thesis using h Grid_query_complete[OF h] by blast
qed

text \<open>
  Claim C8, as amended. The query removes duplicates by the bounds
  \<^verbatim>\<open>(x, y, width, height)\<close>, not by identity: no two rectangles of the returned list
  have the same bounds. Of two inserted rectangles with identical bounds only the one met
  first is returned.
\<close>

theorem Grid_query_distinct_bounds:
  assumes "Grid_query g q = Inr out"
  shows "distinct (map r_tuple out)"
proof -
  have nz: "cell_size g \<noteq> 0" using assms by (auto simp: Grid_query_def split: if_splits)
  let ?st = "scan (cells g) [rect_left q div cell_size g..rect_right q div cell_size g]
                        [rect_top q div cell_size g..rect_bottom q div cell_size g] ({}, [])"
  have "good ?st" by (rule good_scan) (simp add: good_def)
  then have "distinct (snd ?st)" by (simp add: good_def)
  moreover have "out = snd ?st" using assms by (simp add: Grid_query_unfold[OF nz])
  ultimately show ?thesis by (simp add: distinct_map inj_on_def r_tuple_inj)
qed

theorem Grid_query_distinct_bounds_witness:
  "Grid_query \<lparr>cell_size = 64, cells = [(0, 0) \<mapsto> [mk_rect 0 0 10 10, mk_rect 0 0 10 10, mk_rect 5 5 8 8]]\<rparr>
     (mk_rect 0 0 5 5) = Inr [mk_rect 0 0 10 10, mk_rect 5 5 8 8]
   \<and> distinct (map r_tuple [mk_rect 0 0 10 10, mk_rect 5 5 8 8])"
proof -
  have h: "Grid_query \<lparr>cell_size = 64, cells = [(0, 0) \<mapsto> [mk_rect 0 0 10 10, mk_rect 0 0 10 10, mk_rect 5 5 8 8]]\<rparr>
     (mk_rect 0 0 5 5) = Inr [mk_rect 0 0 10 10, mk_rect 5 5 8 8]"
    by (simp add: grid_eval rect_defs)
  show ?thesis using h Grid_query_distinct_bounds[OF h] by blast
qed

text \<open>
  Claim C8 as stated fails: two rectangles with the bounds \<open>(0, 0, 10, 10)\<close> are inserted
  into an empty grid, both lie in the cell range of the query, and the query returns one
  rectangle.
\<close>

theorem Grid_query_identity_counterexample:
  "query_after [mk_rect 0 0 10 10, mk_rect 0 0 10 10] (new_Grid 64) (mk_rect 0 0 5 5)
     = Inr [mk_rect 0 0 10 10]"
  by (simp add: grid_eval rect_defs)

subsection \<open>Loading and reloading a level\<close>

lemmas game_eval = initial_game_def initialize_player_rect_def load_overworld_state_def
  new_Grid_def

lemma midbottom_set_midbottom: "rect_midbottom (set_midbottom p r) = p"
  by (simp add: rect_midbottom_def set_midbottom_def)



lemma set_player_level_state_simps:
  "spatial_grid (set_player_level_state c s) = spatial_grid s"
  "player_state (set_player_level_state c s) = c"
  "score (set_player_level_state c s) = score s"
  "lives (set_player_level_state c s) = lives s"
  "enemy_heap (set_player_level_state c s) = enemy_heap s"
  "player_rect (set_player_level_state c (s\<lparr>game_state := a1, paused := a2, current_level_spec := a3,
           time_left := a4, camera_offset_x := a5, level_width := a6\<rparr>)) = player_rect (set_player_level_state c s)"
  by (simp_all add: set_player_level_state_def Let_def)

lemma load_level_from_spec_eq:
  "load_level_from_spec spec s =
     bind_err (insert_all (level_rects spec) (Grid_clear (spatial_grid s)))
       (\<lambda>g. Inr (loaded spec s g))"
  unfolding load_level_from_spec_def loaded_def Let_def level_rects_def
  by (cases "platforms spec = []") (simp_all add: set_player_level_state_simps set_player_level_state_def Let_def)

lemma load_level_from_spec_cases:
  assumes "load_level_from_spec spec s = Inr t"
  obtains g where "insert_all (level_rects spec) (Grid_clear (spatial_grid s)) = Inr g"
    and "t = loaded spec s g"
  using assms unfolding load_level_from_spec_eq
  by (cases "insert_all (level_rects spec) (Grid_clear (spatial_grid s))") auto

lemma load_level_from_spec_total:
  assumes "cell_size (spatial_grid s) \<noteq> 0"
  shows "\<exists>g. load_level_from_spec spec s = Inr (loaded spec s g) \<and> cell_size g = cell_size (spatial_grid s)"
proof -
  have "cell_size (Grid_clear (spatial_grid s)) \<noteq> 0" using assms by (simp add: Grid_clear_def)
  then obtain g where g: "insert_all (level_rects spec) (Grid_clear (spatial_grid s)) = Inr g"
    using insert_all_total by blast
  have "cell_size g = cell_size (spatial_grid s)"
    using insert_all_cell_size[OF g] by (simp add: Grid_clear_def)
  then show ?thesis using g by (auto simp: load_level_from_spec_eq)
qed

lemma loaded_fields:
  "score (loaded spec s g) = score s"
  "lives (loaded spec s g) = lives s"
  "invincibility_timer (loaded spec s g) = 0"
  "game_state (loaded spec s g) = Level"
  "paused (loaded spec s g) = False"
  "time_left (loaded spec s g) = 300"
  "current_level_spec (loaded spec s g) = Some spec"
  "player_vel_x (loaded spec s g) = 0"
  "player_vel_y (loaded spec s g) = 0"
  "player_on_ground (loaded spec s g) = False"
  "player_state (loaded spec s g) = Small"
  "rect_midbottom (player_rect (loaded spec s g)) = (TILE * SCALE * 2, H - (TILE * SCALE))"
  "platform_rects (loaded spec s g) = map (\<lambda>(x, y, w, h). mk_rect x y w h) (platforms spec)"
  "block_rects (loaded spec s g) = map (\<lambda>(bx, by). mk_rect (bx * TILE * SCALE) (by * TILE * SCALE)
                                                     (TILE * SCALE) (TILE * SCALE)) (blocks spec)"
  "coin_rects (loaded spec s g) = map (\<lambda>(cx, cy). mk_rect (cx * TILE * SCALE + (TILE * SCALE - TILE) div 2)
                                                    (cy * TILE * SCALE + (TILE * SCALE - TILE) div 2)
                                                    TILE TILE) (coins spec)"
  "goal_rect (loaded spec s g) = Some (mk_rect (fst (goal spec)) (snd (goal spec)) (TILE * SCALE) (TILE * SCALE * 2))"
  "enemy_heap (loaded spec s g) = enemy_heap s @ map new_enemy (enemies spec)"
  "active_enemies (loaded spec s g) = [length (enemy_heap s) ..< length (enemy_heap s) + length (enemies spec)]"
  "current_world_on_map (loaded spec s g) = current_world_on_map s"
  "current_node_on_map (loaded spec s g) = current_node_on_map s"
  "spatial_grid (loaded spec s g) = g"
  by (simp_all add: loaded_def set_player_level_state_def Let_def midbottom_set_midbottom)

lemma map_nth_append_upt: "map ((!) (xs @ map f zs)) [length xs ..< length xs + length zs] = map f zs"
  by (rule nth_equalityI) (simp_all add: nth_append)

text \<open>
  Claim C9 (respawn idempotence). From any two states whose grid has a non-zero cell
  size, loading the same level specification succeeds and yields the same platform, block
  and coin rectangles, the same goal rectangle and the same enemies; the score and the
  lives are those of the state before the load, the middle of the player's bottom edge is
  at the start position \<^verbatim>\<open>(TILE * SCALE * 2, H - TILE * SCALE)\<close>, and the player is
  not on the ground.
\<close>

theorem load_level_from_spec_reload:
  assumes "cell_size (spatial_grid s1) \<noteq> 0" and "cell_size (spatial_grid s2) \<noteq> 0"
  shows "\<exists>t1 t2. load_level_from_spec spec s1 = Inr t1 \<and> load_level_from_spec spec s2 = Inr t2
     \<and> platform_rects t1 = platform_rects t2 \<and> block_rects t1 = block_rects t2
     \<and> coin_rects t1 = coin_rects t2 \<and> goal_rect t1 = goal_rect t2
     \<and> map ((!) (enemy_heap t1)) (active_enemies t1) = map ((!) (enemy_heap t2)) (active_enemies t2)
     \<and> score t1 = score s1 \<and> lives t1 = lives s1
     \<and> rect_midbottom (player_rect t1) = (TILE * SCALE * 2, H - (TILE * SCALE))
     \<and> \<not> player_on_ground t1"
proof -
  obtain g1 where t1: "load_level_from_spec spec s1 = Inr (loaded spec s1 g1)"
    using load_level_from_spec_total[OF assms(1)] by blast
  obtain g2 where t2: "load_level_from_spec spec s2 = Inr (loaded spec s2 g2)"
    using load_level_from_spec_total[OF assms(2)] by blast
  show ?thesis
    unfolding t1 t2 by (simp add: loaded_fields map_nth_append_upt)
qed

lemma player_rect_loaded:
  assumes "(rect_w (player_rect s), rect_h (player_rect s)) = player_sizes (player_state s)"
  shows "player_rect (loaded spec s g) = mk_rect 56 344 16 24"
  using assms
  by (cases "player_state s")
     (auto simp add: loaded_def set_player_level_state_def Let_def rect_defs constants_defs)



theorem load_level_from_spec_reload_witness:
  "cell_size (spatial_grid initial_game) \<noteq> 0
   \<and> cell_size (spatial_grid (initial_game\<lparr>score := 250, lives := 2\<rparr>)) \<noteq> 0
   \<and> (\<exists>t1 t2. load_level_from_spec level_1_1 initial_game = Inr t1
     \<and> load_level_from_spec level_1_1 (initial_game\<lparr>score := 250, lives := 2\<rparr>) = Inr t2
     \<and> platform_rects t1 = platform_rects t2 \<and> block_rects t1 = block_rects t2
     \<and> coin_rects t1 = coin_rects t2 \<and> goal_rect t1 = goal_rect t2
     \<and> map ((!) (enemy_heap t1)) (active_enemies t1) = map ((!) (enemy_heap t2)) (active_enemies t2)
     \<and> score t1 = score initial_game \<and> lives t1 = lives initial_game
     \<and> rect_midbottom (player_rect t1) = (TILE * SCALE * 2, H - (TILE * SCALE))
     \<and> \<not> player_on_ground t1)"
proof -
  have h: "cell_size (spatial_grid initial_game) \<noteq> 0"
    "cell_size (spatial_grid (initial_game\<lparr>score := 250, lives := 2\<rparr>)) \<noteq> 0"
    by (simp_all add: game_eval constants_defs)
  show ?thesis using h load_level_from_spec_reload[OF h, of level_1_1] by blast
qed

subsection \<open>Hurt and death\<close>

lemma handle_player_hurt_big:
  assumes "player_state s = Big \<or> player_state s = Fire"
  shows "\<exists>t. handle_player_hurt s = Inr t \<and> player_state t = Small
     \<and> invincibility_timer t = FPS * 2 \<and> lives t = lives s \<and> game_state t = game_state s"
  using assms by (auto simp: handle_player_hurt_def set_player_level_state_def Let_def)

lemma handle_player_hurt_small:
  "player_state s = Small \<Longrightarrow> handle_player_hurt s = handle_player_death s"
  by (simp add: handle_player_hurt_def)

lemma handle_player_death_game_over:
  "lives s \<le> 1 \<Longrightarrow> handle_player_death s = Inr (s\<lparr>lives := lives s - 1, game_state := Game_over\<rparr>)"
  by (simp add: handle_player_death_def game_over_transition_def Let_def)

lemma handle_player_death_reload:
  assumes "1 < lives s" and "current_level_spec s = Some spec" and "cell_size (spatial_grid s) \<noteq> 0"
  shows "\<exists>g. handle_player_death s
            = Inr (loaded spec (s\<lparr>lives := lives s - 1, invincibility_timer := FPS * 2\<rparr>) g)
          \<and> cell_size g = cell_size (spatial_grid s)"
proof -
  let ?s = "s\<lparr>lives := lives s - 1, invincibility_timer := FPS * 2\<rparr>"
  have "cell_size (spatial_grid ?s) \<noteq> 0" using assms(3) by simp
  then obtain g where "load_level_from_spec spec ?s = Inr (loaded spec ?s g)"
    "cell_size g = cell_size (spatial_grid ?s)"
    using load_level_from_spec_total by blast
  then show ?thesis using assms(1,2) by (auto simp: handle_player_death_def Let_def)
qed

text \<open>
  Claim C3 at the failing input: level 1-1 is loaded from the initial state (three lives, a
  small player) and the player is hurt. The death takes one life and reloads the level
  with the player at the start position, but the invincibility timer, set to
  \<^verbatim>\<open>FPS * 2\<close> before the reload, is reset to zero by the loader: the first tick after
  the reload has no grace period.
\<close>

theorem respawn_without_grace_period:
  "\<exists>t. bind_err (load_level_from_spec level_1_1 initial_game) handle_player_hurt = Inr t
       \<and> lives t = 2 \<and> game_state t = Level \<and> player_rect t = mk_rect 56 344 16 24
       \<and> invincibility_timer t = 0"
proof -
  have cs: "cell_size (spatial_grid initial_game) \<noteq> 0"
    by (simp add: game_eval constants_defs)
  obtain g where l: "load_level_from_spec level_1_1 initial_game = Inr (loaded level_1_1 initial_game g)"
    and g: "cell_size g = cell_size (spatial_grid initial_game)"
    using load_level_from_spec_total[OF cs] by blast
  let ?s = "loaded level_1_1 initial_game g"
  have small: "player_state ?s = Small" and lv: "1 < lives ?s"
    and sp: "current_level_spec ?s = Some level_1_1" and cs': "cell_size (spatial_grid ?s) \<noteq> 0"
    using cs g by (simp_all add: loaded_fields game_eval)
  obtain g' where d: "handle_player_death ?s
       = Inr (loaded level_1_1 (?s\<lparr>lives := lives ?s - 1, invincibility_timer := FPS * 2\<rparr>) g')"
    using handle_player_death_reload[OF lv sp cs'] by blast
  have sz: "(rect_w (player_rect (?s\<lparr>lives := lives ?s - 1, invincibility_timer := FPS * 2\<rparr>)),
             rect_h (player_rect (?s\<lparr>lives := lives ?s - 1, invincibility_timer := FPS * 2\<rparr>)))
           = player_sizes (player_state (?s\<lparr>lives := lives ?s - 1, invincibility_timer := FPS * 2\<rparr>))"
    by (simp add: loaded_def set_player_level_state_def Let_def game_eval rect_defs constants_defs)
  let ?t = "loaded level_1_1 (?s\<lparr>lives := lives ?s - 1, invincibility_timer := FPS * 2\<rparr>) g'"
  have "bind_err (load_level_from_spec level_1_1 initial_game) handle_player_hurt = Inr ?t"
    unfolding l bind_err_simps handle_player_hurt_small[OF small] d ..
  moreover have "lives ?t = 2" by (simp add: loaded_fields game_eval)
  moreover have "game_state ?t = Level" by (simp add: loaded_fields)
  moreover have "player_rect ?t = mk_rect 56 344 16 24" using sz by (rule player_rect_loaded)
  moreover have "invincibility_timer ?t = 0" by (simp add: loaded_fields)
  ultimately show ?thesis by blast
qed

subsection \<open>Score and lives across transitions\<close>

text \<open>
  Claim C6 at the failing input: in the game-over mode with a score of 250 and no lives
  left, the escape key returns to the overworld with the score and the lives as they were.
\<close>

theorem escape_from_game_over_keeps_score_and_lives:
  "map_option (\<lambda>t. (game_state t, score t, lives t))
     (handle_event (KEYDOWN K_ESCAPE) (initial_game\<lparr>game_state := Game_over, score := 250, lives := 0\<rparr>))
   = Some (Overworld, 250, 0)"
  by (simp add: handle_event_def game_eval)

lemma handle_event_score_lives:
  assumes "handle_event ev s = Some t"
  shows "(score t = score s \<and> lives t = lives s)
       \<or> (game_state s = Game_over \<and> ev = KEYDOWN K_RETURN \<and> score t = 0 \<and> lives t = 3)"
  using assms unfolding handle_event_def Let_def load_overworld_state_def
  by (cases ev) (auto split: if_splits)

lemma return_from_game_over_resets:
  "game_state s = Game_over \<Longrightarrow>
   handle_event (KEYDOWN K_RETURN) s = Some (s\<lparr>score := 0, lives := 3, game_state := Overworld, paused := False\<rparr>)"
  by (simp add: handle_event_def load_overworld_state_def)

subsection \<open>Pause\<close>

lemma handle_event_pause:
  assumes "\<not> paused s" and "game_state s = Overworld \<or> game_state s = Level"
  shows "handle_event (KEYDOWN K_p) s = Some (s\<lparr>paused := True, paused_from_state := game_state s\<rparr>)"
  using assms by (auto simp: handle_event_def Let_def)

lemma handle_event_resume:
  assumes "paused s" and "game_state s = Overworld \<or> game_state s = Level"
  shows "handle_event (KEYDOWN K_p) s = Some (s\<lparr>paused := False, game_state := paused_from_state s\<rparr>)"
  using assms by (auto simp: handle_event_def Let_def)

lemma run_frames_paused:
  assumes "paused s"
  shows "run_frames specs (map (\<lambda>(k, d). ([], k, d)) idle) s = Inr (Some s)"
  using assms by (induction idle) (auto simp: frame_def update_frame_def)

text \<open>
  Claim C4 (pause and resume). In the overworld or in a level, not paused: the frame
  that brings the pause key and any number of frames without events, whatever keys are
  held and whatever the frame times, leave the state as it was but for the pause flag and
  the remembered mode; the pause key then gives back the state before the pause, the mode
  and every field of the session included, but for the remembered mode.
\<close>

theorem pause_resume_roundtrip:
  assumes "\<not> paused s" and "game_state s = Overworld \<or> game_state s = Level"
  shows "run_frames specs (([KEYDOWN K_p], keys0, dt0) # map (\<lambda>(k, d). ([], k, d)) idle) s
           = Inr (Some (s\<lparr>paused := True, paused_from_state := game_state s\<rparr>))
       \<and> handle_event (KEYDOWN K_p) (s\<lparr>paused := True, paused_from_state := game_state s\<rparr>)
           = Some (s\<lparr>paused_from_state := game_state s\<rparr>)"
proof -
  let ?sp = "s\<lparr>paused := True, paused_from_state := game_state s\<rparr>"
  have p: "handle_event (KEYDOWN K_p) s = Some ?sp" using assms by (rule handle_event_pause)
  have f: "frame specs ([KEYDOWN K_p], keys0, dt0) s = Inr (Some ?sp)"
    by (simp add: frame_def p update_frame_def)
  have i: "run_frames specs (map (\<lambda>(k, d). ([], k, d)) idle) ?sp = Inr (Some ?sp)"
    by (rule run_frames_paused) simp
  have r: "handle_event (KEYDOWN K_p) ?sp = Some (?sp\<lparr>paused := False, game_state := paused_from_state ?sp\<rparr>)"
    by (rule handle_event_resume) (use assms in simp_all)
  have e: "?sp\<lparr>paused := False, game_state := paused_from_state ?sp\<rparr> = s\<lparr>paused_from_state := game_state s\<rparr>"
    using assms(1) by simp
  show ?thesis using f i r e by simp
qed

theorem pause_resume_roundtrip_witness:
  "\<not> paused initial_game \<and> (game_state initial_game = Overworld \<or> game_state initial_game = Level)
   \<and> run_frames level_map_config
         (([KEYDOWN K_p], (\<lambda>k. False), 1 / 60)
            # map (\<lambda>(k, d). ([], k, d)) [((\<lambda>k. k = K_RIGHT), 1 / 60), ((\<lambda>k. k = K_RETURN), 1 / 50)])
         initial_game
       = Inr (Some (initial_game\<lparr>paused := True, paused_from_state := game_state initial_game\<rparr>))
   \<and> handle_event (KEYDOWN K_p) (initial_game\<lparr>paused := True, paused_from_state := game_state initial_game\<rparr>)
       = Some (initial_game\<lparr>paused_from_state := game_state initial_game\<rparr>)"
proof -
  have h: "\<not> paused initial_game" "game_state initial_game = Overworld \<or> game_state initial_game = Level"
    by (simp_all add: game_eval)
  show ?thesis using h pause_resume_roundtrip[OF h] by blast
qed

subsection \<open>Overworld navigation\<close>

lemma num_worlds: "length SMW_STYLE_MAP_DATA = 9"
  by (simp add: SMW_STYLE_MAP_DATA_def)

lemma world_cases:
  assumes "0 \<le> w" "w < 9"
  obtains "w = 0" | "w = 1" | "w = 2" | "w = 3" | "w = 4" | "w = 5" | "w = 6" | "w = 7" | "w = (8::int)"
  using assms by arith

lemma num_nodes_pos: "0 \<le> w \<Longrightarrow> w < 9 \<Longrightarrow> 0 < num_nodes w"
  by (erule (1) world_cases) (simp_all add: num_nodes_def SMW_STYLE_MAP_DATA_def)

lemma py_nth_world:
  "0 \<le> w \<Longrightarrow> w < 9 \<Longrightarrow> py_nth SMW_STYLE_MAP_DATA w = Inr (SMW_STYLE_MAP_DATA ! nat w)"
  by (simp add: py_nth_def num_worlds)

text \<open>
  Claim C5, as amended. When the input delay has run out, in any of the nine worlds, a
  right input moves the cursor to the next node index modulo the number of nodes of the
  world and a left input (without right) to the previous one modulo that number: the
  cursor wraps from the last node to the first and from the first to the last, inside
  the same world. The world index is unchanged and the input delay is set again.
\<close>

theorem overworld_left_right_wraps:
  assumes "ow_input_delay_timer s - dt \<le> 0"
    and "0 \<le> current_world_on_map s" and "current_world_on_map s < 9"
  shows "(keys K_RIGHT \<longrightarrow>
            update_overworld_map_navigation specs keys dt s
            = Inr (s\<lparr>ow_input_delay_timer := ow_input_cooldown s,
                     current_node_on_map := (current_node_on_map s + 1)
                         mod num_nodes (current_world_on_map s)\<rparr>))
       \<and> (\<not> keys K_RIGHT \<and> keys K_LEFT \<longrightarrow>
            update_overworld_map_navigation specs keys dt s
            = Inr (s\<lparr>ow_input_delay_timer := ow_input_cooldown s,
                     current_node_on_map := (current_node_on_map s - 1
                         + num_nodes (current_world_on_map s)) mod num_nodes (current_world_on_map s)\<rparr>))"
proof -
  have n: "num_nodes (current_world_on_map s) \<noteq> 0" using num_nodes_pos[OF assms(2,3)] by simp
  show ?thesis
    using assms(1) n
    by (simp add: update_overworld_map_navigation_def Let_def py_nth_world[OF assms(2,3)]
        py_mod_def num_nodes_def)
qed

lemma overworld_wrap_right:
  assumes "0 < n" "c = n - 1" shows "(c + 1) mod n = (0::int)"
  using assms by simp

lemma overworld_wrap_left:
  assumes "0 < n" "c = 0" shows "(c - 1 + n) mod n = (n - 1::int)"
  using assms by (simp add: zmod_minus1)

theorem overworld_left_right_wraps_witness:
  "ow_input_delay_timer (initial_game\<lparr>current_world_on_map := 7, current_node_on_map := 4\<rparr>) - 1 / 60 \<le> 0
   \<and> update_overworld_map_navigation level_map_config (\<lambda>k. k = K_RIGHT) (1 / 60)
        (initial_game\<lparr>current_world_on_map := 7, current_node_on_map := 4\<rparr>)
     = Inr (initial_game\<lparr>current_world_on_map := 7, current_node_on_map := 0,
              ow_input_delay_timer := 18 / 100\<rparr>)"
  using overworld_left_right_wraps[of "initial_game\<lparr>current_world_on_map := 7, current_node_on_map := 4\<rparr>"
      "1 / 60" "\<lambda>k. k = K_RIGHT" level_map_config]
  by (simp add: game_eval num_nodes_def SMW_STYLE_MAP_DATA_def)

text \<open>
  Claim C5 as stated fails: in Star World, which has five nodes, with the cursor on the
  first node, a left input moves the cursor to node 4, the last one.
\<close>

theorem overworld_left_at_first_node_counterexample:
  "map_sum id current_node_on_map
     (update_overworld_map_navigation level_map_config (\<lambda>k. k = K_LEFT) (1 / 60)
        (initial_game\<lparr>current_world_on_map := 7\<rparr>)) = Inr 4"
  by (simp add: update_overworld_map_navigation_def Let_def py_nth_def py_mod_def
      SMW_STYLE_MAP_DATA_def initial_game_def initialize_player_rect_def load_overworld_state_def)

subsection \<open>Collision of the player with the level\<close>

lemma resolve_miss: "\<not> colliderect (player_rect s) c \<Longrightarrow> resolve d c s = s"
  by (simp add: resolve_def)

lemma fold_resolve_miss:
  "\<forall>c \<in> set cs. \<not> colliderect (player_rect s) c \<Longrightarrow> fold (resolve d) cs s = s"
  by (induction cs) (simp_all add: resolve_miss)

lemma resolve_stopped: "vel_along d s = 0 \<Longrightarrow> resolve d c s = s"
  by (cases d) (simp_all add: resolve_def vel_along_def)

lemma fold_resolve_stopped: "vel_along d s = 0 \<Longrightarrow> fold (resolve d) cs s = s"
  by (induction cs) (simp_all add: resolve_stopped)

lemma resolve_hit:
  assumes "colliderect (player_rect s) r" and "vel_along d s \<noteq> 0"
  shows "player_rect (resolve d r s) = push_out d (vel_along d s) r (player_rect s)"
    and "vel_along d (resolve d r s) = 0"
  using assms by (cases d; simp add: resolve_def vel_along_def push_out_def Let_def)+

lemma push_out_clear:
  assumes "0 < rect_w p" "0 < rect_h p" "0 < rect_w r" "0 < rect_h r"
  shows "\<not> colliderect (push_out d v r p) r"
  using assms by (cases d) (simp_all add: push_out_def colliderect_def rect_defs)

text \<open>
  Claim C1, as amended, for the player. Let the grid query at the player's rectangle
  return a list in which \<open>r\<close> is the first rectangle that the player collides with, let
  the player's velocity on the axis of the pass be non-zero, and let the player and
  \<open>r\<close> have positive width and height. Then the collision pass succeeds, the player's
  rectangle is pushed out of \<open>r\<close> on that axis (its edge on the edge of \<open>r\<close>, by the
  sign of the velocity) and no longer collides with \<open>r\<close>, and the velocity on the axis
  is zero. Nothing is claimed about other rectangles that the player overlaps at the
  same time, about an overlap met with a velocity of zero, or about enemies, which the
  program does not resolve against the level geometry.
\<close>

theorem handle_level_collisions_first_hit:
  assumes q: "Grid_query (spatial_grid s) (player_rect s) = Inr (pre @ r # post)"
    and pre: "\<forall>c \<in> set pre. \<not> colliderect (player_rect s) c"
    and hit: "colliderect (player_rect s) r"
    and vel: "vel_along d s \<noteq> 0"
    and pos: "0 < rect_w (player_rect s)" "0 < rect_h (player_rect s)" "0 < rect_w r" "0 < rect_h r"
  shows "\<exists>t. handle_level_collisions d s = Inr t
       \<and> player_rect t = push_out d (vel_along d s) r (player_rect s)
       \<and> \<not> colliderect (player_rect t) r
       \<and> vel_along d t = 0"
proof -
  let ?s1 = "resolve d r s"
  have a: "fold (resolve d) pre s = s" using pre by (rule fold_resolve_miss)
  have b: "vel_along d ?s1 = 0" using hit vel by (rule resolve_hit)
  have c: "fold (resolve d) post ?s1 = ?s1" using b by (rule fold_resolve_stopped)
  have "fold (resolve d) (pre @ r # post) s = ?s1" by (simp add: a c)
  then have t: "handle_level_collisions d s = Inr ?s1"
    by (simp add: handle_level_collisions_def q)
  have p: "player_rect ?s1 = push_out d (vel_along d s) r (player_rect s)"
    using hit vel by (rule resolve_hit)
  have "\<not> colliderect (player_rect ?s1) r" unfolding p using pos by (rule push_out_clear)
  with t p b show ?thesis by blast
qed


lemma for_each_rel:
  assumes step: "\<And>a s t. f a s = Inr t \<Longrightarrow> R s t"
    and refl: "\<And>s. R s s" and trans: "\<And>s t u. R s t \<Longrightarrow> R t u \<Longrightarrow> R s u"
  shows "for_each f xs s = Inr t \<Longrightarrow> R s t"
proof (induction xs arbitrary: s)
  case Nil then show ?case using refl by simp
next
  case (Cons a xs)
  then obtain s1 where a: "f a s = Inr s1" and b: "for_each f xs s1 = Inr t"
    by (cases "f a s") auto
  show ?case using trans[OF step[OF a] Cons.IH[OF b]] .
qed

theorem handle_level_collisions_first_hit_witness:
  "Grid_query (spatial_grid ((entered level_1_1)\<lparr>player_rect := mk_rect 56 345 16 24, player_vel_y := 11 / 10\<rparr>))
     (player_rect ((entered level_1_1)\<lparr>player_rect := mk_rect 56 345 16 24, player_vel_y := 11 / 10\<rparr>))
     = Inr ([] @ mk_rect 0 368 640 32 # [])
   \<and> colliderect (mk_rect 56 345 16 24) (mk_rect 0 368 640 32)
   \<and> (\<exists>t. handle_level_collisions Vertical
             ((entered level_1_1)\<lparr>player_rect := mk_rect 56 345 16 24, player_vel_y := 11 / 10\<rparr>) = Inr t
        \<and> player_rect t = mk_rect 56 344 16 24
        \<and> \<not> colliderect (player_rect t) (mk_rect 0 368 640 32)
        \<and> vel_along Vertical t = 0)"
proof -
  let ?s = "(entered level_1_1)\<lparr>player_rect := mk_rect 56 345 16 24, player_vel_y := 11 / 10\<rparr>"
  have q: "Grid_query (spatial_grid ?s) (player_rect ?s) = Inr ([] @ mk_rect 0 368 640 32 # [])"
    by code_simp
  have pre: "\<forall>c \<in> set []. \<not> colliderect (player_rect ?s) c" by simp
  have hit: "colliderect (player_rect ?s) (mk_rect 0 368 640 32)"
    by (simp add: colliderect_def mk_rect_def)
  have vel: "vel_along Vertical ?s \<noteq> 0" by (simp add: vel_along_def)
  have pos: "0 < rect_w (player_rect ?s)" "0 < rect_h (player_rect ?s)"
    "0 < rect_w (mk_rect 0 368 640 32)" "0 < rect_h (mk_rect 0 368 640 32)"
    by (simp_all add: mk_rect_def)
  have p: "push_out Vertical (vel_along Vertical ?s) (mk_rect 0 368 640 32) (player_rect ?s)
             = mk_rect 56 344 16 24"
    by (simp add: push_out_def vel_along_def rect_defs)
  show ?thesis
    using handle_level_collisions_first_hit[OF q pre hit vel pos] q hit unfolding p by simp
qed

text \<open>
  Claim C1 as stated fails for enemies. Level 1-3 is entered from the initial state and
  one tick with a frame time of 0.68 seconds is run with no key held: the koopa, spawned
  at \<open>x = 350\<close>, stands at \<open>x = 248\<close> after its movement update and overlaps the
  platform \<open>(100, 304, 150, 32)\<close>. With frame times of 17 milliseconds the koopa's
  movement, which does not look at the level geometry, brings it to the same place in 34
  steps.
\<close>

theorem enemy_overlaps_platform_counterexample:
  "map_sum id (\<lambda>t. (game_state t, enemy_rects t ! 1, platform_rects t ! 1,
                      colliderect (enemy_rects t ! 1) (platform_rects t ! 1)))
     (update_level_gameplay no_keys (68 / 100) (entered level_1_3))
     = Inr (Level, mk_rect 248 320 32 48, mk_rect 100 304 150 32, True)
   \<and> enemy_rect ((move_enemy (17 / 1000) 1280 ^^ 34) (new_enemy (350, H - 32 - 32, ''koopa'')))
       = mk_rect 248 320 32 48"
proof (intro conjI)
  show "map_sum id (\<lambda>t. (game_state t, enemy_rects t ! 1, platform_rects t ! 1,
                      colliderect (enemy_rects t ! 1) (platform_rects t ! 1)))
     (update_level_gameplay no_keys (68 / 100) (entered level_1_3))
     = Inr (Level, mk_rect 248 320 32 48, mk_rect 100 304 150 32, True)"
    by code_simp
  show "enemy_rect ((move_enemy (17 / 1000) 1280 ^^ 34) (new_enemy (350, H - 32 - 32, ''koopa'')))
       = mk_rect 248 320 32 48"
    by (simp add: eval_nat_numeral move_enemy_def new_enemy_def Let_def rect_defs constants_defs
        trunc_def)
qed

text \<open>
  An example with two rectangles: falling onto the ground and a platform that rises three
  pixels above it, the player is put on the ground, the velocity is set to zero, and the
  overlap with the platform stays.
\<close>

lemma player_second_overlap_example:
  "map_sum id (\<lambda>t. (player_rect t, player_vel_y t, colliderect (player_rect t) (mk_rect 200 365 100 35)))
     (handle_level_collisions Vertical
        ((entered bump_level)\<lparr>player_rect := mk_rect 220 346 16 24, player_vel_y := 5\<rparr>))
   = Inr (mk_rect 220 344 16 24, 0, True)"
  by code_simp

subsection \<open>Stomp or hurt\<close>

lemma move_enemy_state: "enemy_state (move_enemy dt lw e) = enemy_state e"
  by (simp add: move_enemy_def Let_def)

lemma heap_load: "load_level_from_spec spec s = Inr t \<Longrightarrow> i < length (enemy_heap s)
   \<Longrightarrow> enemy_heap t ! i = enemy_heap s ! i"
  by (erule load_level_from_spec_cases) (simp add: loaded_fields nth_append)

lemma heap_death: "handle_player_death s = Inr t \<Longrightarrow> i < length (enemy_heap s)
   \<Longrightarrow> enemy_heap t ! i = enemy_heap s ! i"
  unfolding handle_player_death_def Let_def
  by (auto simp: game_over_transition_def load_overworld_state_def
      split: if_splits option.splits dest: heap_load)

lemma heap_hurt: "handle_player_hurt s = Inr t \<Longrightarrow> i < length (enemy_heap s)
   \<Longrightarrow> enemy_heap t ! i = enemy_heap s ! i"
  unfolding handle_player_hurt_def
  by (auto simp: set_player_level_state_def Let_def split: if_splits dest: heap_death)

text \<open>
  Claim C2. Let the enemy with reference \<open>i\<close> be walking and let the player collide
  with it after the enemy's movement of this tick. The contact is a stomp exactly when
  the player's vertical velocity is positive and the player's bottom edge is above the
  enemy's vertical centre: then the enemy becomes stomped, the score grows by 100 and the
  player's vertical velocity becomes \<^verbatim>\<open>JUMP_VEL * 0.6\<close>, which is negative. Otherwise,
  when the invincibility timer is not positive, the player is hurt, and when it is
  positive nothing happens but the enemy's movement. Of the states that the update of
  the enemy can return, the enemy is stomped in those of a stomp only.
\<close>

theorem stomp_or_hurt:
  fixes s :: Game and dt :: real and i :: nat
  defines "e \<equiv> move_enemy dt (level_width s) (enemy_heap s ! i)"
  defines "stomp \<equiv> player_vel_y s > 0 \<and> rect_bottom (player_rect s) < rect_centery (enemy_rect e)"
  assumes "i < length (enemy_heap s)" and "enemy_state (enemy_heap s ! i) = Walking"
    and "colliderect (player_rect s) (enemy_rect e)"
  shows "(stomp \<longrightarrow> update_enemy dt i s
             = Inr (s\<lparr>enemy_heap := (enemy_heap s)[i := e\<lparr>enemy_state := Stomped\<rparr>],
                      player_vel_y := JUMP_VEL * (6 / 10), score := score s + 100\<rparr>)
            \<and> JUMP_VEL * (6 / 10) < 0)
       \<and> (\<not> stomp \<and> invincibility_timer s \<le> 0 \<longrightarrow>
            update_enemy dt i s = handle_player_hurt (s\<lparr>enemy_heap := (enemy_heap s)[i := e]\<rparr>))
       \<and> (\<not> stomp \<and> invincibility_timer s > 0 \<longrightarrow>
            update_enemy dt i s = Inr (s\<lparr>enemy_heap := (enemy_heap s)[i := e]\<rparr>))
       \<and> (\<forall>t. update_enemy dt i s = Inr t \<longrightarrow> (enemy_state (enemy_heap t ! i) = Stomped \<longleftrightarrow> stomp))"
proof -
  let ?s1 = "s\<lparr>enemy_heap := (enemy_heap s)[i := e]\<rparr>"
  have w: "enemy_state e = Walking" using assms(4) by (simp add: e_def move_enemy_state)
  have a: "stomp \<Longrightarrow> update_enemy dt i s
             = Inr (s\<lparr>enemy_heap := (enemy_heap s)[i := e\<lparr>enemy_state := Stomped\<rparr>],
                      player_vel_y := JUMP_VEL * (6 / 10), score := score s + 100\<rparr>)"
    using assms(4,5) unfolding stomp_def e_def by (simp add: update_enemy_def Let_def)
  have b: "\<not> stomp \<Longrightarrow> invincibility_timer s \<le> 0 \<Longrightarrow> update_enemy dt i s = handle_player_hurt ?s1"
    using assms(4,5) unfolding stomp_def e_def by (auto simp: update_enemy_def Let_def)
  have c: "\<not> stomp \<Longrightarrow> invincibility_timer s > 0 \<Longrightarrow> update_enemy dt i s = Inr ?s1"
    using assms(4,5) unfolding stomp_def e_def by (auto simp: update_enemy_def Let_def)
  have j: "JUMP_VEL * (6 / 10) < 0" by (simp add: JUMP_VEL_def)
  have d: "enemy_state (enemy_heap t ! i) = Stomped \<longleftrightarrow> stomp" if t: "update_enemy dt i s = Inr t" for t
  proof (cases stomp)
    case True
    then show ?thesis using a t assms(3) by auto
  next
    case False
    have "enemy_heap t ! i = e"
    proof (cases "invincibility_timer s \<le> 0")
      case True
      then have "handle_player_hurt ?s1 = Inr t" using b False t by simp
      then have "enemy_heap t ! i = enemy_heap ?s1 ! i" by (rule heap_hurt) (use assms(3) in simp)
      then show ?thesis using assms(3) by simp
    next
      case False
      then show ?thesis using c \<open>\<not> stomp\<close> t assms(3) by auto
    qed
    then show ?thesis using w False by simp
  qed
  show ?thesis using a b c d j by blast
qed

theorem stomp_or_hurt_witness:
  "0 < length (enemy_heap ((entered level_1_1)\<lparr>player_rect := mk_rect 190 320 16 24, player_vel_y := 5\<rparr>))
   \<and> enemy_state (enemy_heap ((entered level_1_1)\<lparr>player_rect := mk_rect 190 320 16 24, player_vel_y := 5\<rparr>) ! 0) = Walking
   \<and> colliderect (mk_rect 190 320 16 24) (mk_rect 198 336 32 32)
   \<and> rect_bottom (mk_rect 190 320 16 24) < rect_centery (mk_rect 198 336 32 32)
   \<and> map_sum id (\<lambda>t. (enemy_state (enemy_heap t ! 0), enemy_rect (enemy_heap t ! 0), score t, player_vel_y t))
        (update_enemy (17 / 1000) 0 ((entered level_1_1)\<lparr>player_rect := mk_rect 190 320 16 24, player_vel_y := 5\<rparr>))
       = Inr (Stomped, mk_rect 198 336 32 32, 100, - 6)"
proof -
  let ?s = "(entered level_1_1)\<lparr>player_rect := mk_rect 190 320 16 24, player_vel_y := 5\<rparr>"
  let ?e = "move_enemy (17 / 1000) (level_width ?s) (enemy_heap ?s ! 0)"
  have h1: "0 < length (enemy_heap ?s)" by code_simp
  have h2: "enemy_state (enemy_heap ?s ! 0) = Walking" by code_simp
  have e: "enemy_rect ?e = mk_rect 198 336 32 32" by code_simp
  have sc: "score ?s = 0" by code_simp
  have h3: "colliderect (player_rect ?s) (enemy_rect ?e)"
    unfolding e by (simp add: colliderect_def mk_rect_def)
  have st: "player_vel_y ?s > 0 \<and> rect_bottom (player_rect ?s) < rect_centery (enemy_rect ?e)"
    unfolding e by (simp add: rect_defs)
  have u: "update_enemy (17 / 1000) 0 ?s
             = Inr (?s\<lparr>enemy_heap := (enemy_heap ?s)[0 := ?e\<lparr>enemy_state := Stomped\<rparr>],
                      player_vel_y := JUMP_VEL * (6 / 10), score := score ?s + 100\<rparr>)"
    using stomp_or_hurt[OF h1 h2 h3] st by blast
  have "map_sum id (\<lambda>t. (enemy_state (enemy_heap t ! 0), enemy_rect (enemy_heap t ! 0), score t, player_vel_y t))
        (update_enemy (17 / 1000) 0 ?s) = Inr (Stomped, mk_rect 198 336 32 32, 100, - 6)"
    unfolding u using h1 e sc by (simp add: JUMP_VEL_def)
  then show ?thesis using h1 h2 h3 st unfolding e by (simp add: rect_defs)
qed

subsection \<open>The goal\<close>

lemma time_rel_refl: "time_rel s s" by (simp add: time_rel_def)

lemma time_rel_trans: "time_rel s t \<Longrightarrow> time_rel t u \<Longrightarrow> time_rel s u"
  by (auto simp: time_rel_def)

lemma time_left_resolve: "time_left (resolve d c s) = time_left s"
  by (cases d) (simp_all add: resolve_def Let_def)

lemma time_left_fold_resolve: "time_left (fold (resolve d) cs s) = time_left s"
  by (induction cs arbitrary: s) (simp_all add: time_left_resolve)

lemma time_left_handle_level_collisions:
  "handle_level_collisions d s = Inr t \<Longrightarrow> time_left t = time_left s"
  unfolding handle_level_collisions_def
  by (cases "Grid_query (spatial_grid s) (player_rect s)") (auto simp: time_left_fold_resolve)

lemma time_rel_load: "load_level_from_spec spec s = Inr t \<Longrightarrow> time_rel s t"
  by (erule load_level_from_spec_cases) (simp add: time_rel_def loaded_fields)

lemma time_rel_death: "handle_player_death s = Inr t \<Longrightarrow> time_rel s t"
  unfolding handle_player_death_def Let_def
  by (auto simp: game_over_transition_def load_overworld_state_def time_rel_def loaded_fields
      split: if_splits option.splits elim!: load_level_from_spec_cases)

lemma time_rel_hurt: "handle_player_hurt s = Inr t \<Longrightarrow> time_rel s t"
  unfolding handle_player_hurt_def
  by (auto simp: set_player_level_state_def Let_def time_rel_refl time_rel_def
      split: if_splits dest: time_rel_death)

lemma time_rel_update_enemy: "update_enemy dt i s = Inr t \<Longrightarrow> time_rel s t"
  unfolding update_enemy_def remove_enemy_def Let_def
  by (auto simp: time_rel_def split: enemy_mode.splits if_splits option.splits dest!: time_rel_hurt)

lemma time_rel_update_enemies: "update_enemies dt s = Inr t \<Longrightarrow> time_rel s t"
  unfolding update_enemies_def
  by (rule for_each_rel[where f = "update_enemy dt"])
     (auto intro: time_rel_update_enemy time_rel_refl time_rel_trans)

lemma time_left_collect_coin: "collect_coin c s = Inr t \<Longrightarrow> time_left t = time_left s"
  by (auto simp: collect_coin_def split: if_splits)

lemma time_left_collect_coins: "collect_coins s = Inr t \<Longrightarrow> time_left t = time_left s"
  unfolding collect_coins_def
  by (rule for_each_rel[where f = collect_coin and R = "\<lambda>s t. time_left t = time_left s"])
     (auto dest: time_left_collect_coin)

lemma time_rel_before_goal_check:
  assumes "before_goal_check keys dt s = Inr t"
  shows "time_rel s t"
proof -
  from assms obtain s1 s2 s3 where
    1: "handle_level_collisions Horizontal (move_x (player_input keys dt s)) = Inr s1"
    and 2: "handle_level_collisions Vertical (move_y s1) = Inr s2"
    and 3: "update_enemies dt (update_camera s2) = Inr s3"
    and 4: "collect_coins s3 = Inr t"
    unfolding before_goal_check_def bind_err_def by (auto split: sum.splits)
  have "time_left s1 = time_left s"
    using time_left_handle_level_collisions[OF 1] by (simp add: move_x_def player_input_def Let_def)
  moreover have "time_left s2 = time_left s1"
    using time_left_handle_level_collisions[OF 2] by (simp add: move_y_def)
  moreover have "time_rel s2 s3"
    using time_rel_update_enemies[OF 3] by (simp add: time_rel_def update_camera_def Let_def)
  moreover have "time_left t = time_left s3" using 4 by (rule time_left_collect_coins)
  ultimately show ?thesis by (auto simp: time_rel_def)
qed

text \<open>
  Claim C7. In a level tick that starts with a non-negative remaining time, let \<open>t\<close> be
  the state when the goal check is reached, after the movement, the enemies and the
  coins. When the player's rectangle collides with the goal rectangle in \<open>t\<close>, the tick
  returns \<open>t\<close> with the mode set to victory and the score raised by ten times the floor
  of the remaining time, and with nothing else changed: the invincibility timer, the
  remaining time and the checks for a time-out and a fall are not reached.
\<close>

theorem goal_reached_ends_tick:
  assumes "current_level_spec s \<noteq> None" and "0 \<le> time_left s"
    and "before_goal_check keys dt s = Inr t" and "goal_reached t"
  shows "update_level_gameplay keys dt s
           = Inr (t\<lparr>game_state := Victory, score := score t + \<lfloor>time_left t\<rfloor> * 10\<rparr>)"
proof -
  have "time_rel s t" using assms(3) by (rule time_rel_before_goal_check)
  then have "0 \<le> time_left t" using assms(2) by (auto simp: time_rel_def)
  then have "level_complete_transition t
               = t\<lparr>game_state := Victory, score := score t + \<lfloor>time_left t\<rfloor> * 10\<rparr>"
    by (simp add: level_complete_transition_def trunc_def max_def)
  then show ?thesis
    using assms(1,3,4) by (auto simp: update_level_gameplay_def goal_check_def)
qed

theorem goal_reached_ends_tick_witness:
  "current_level_spec ((entered level_1_1)\<lparr>player_rect := mk_rect 1215 344 16 24\<rparr>) \<noteq> None
   \<and> 0 \<le> time_left ((entered level_1_1)\<lparr>player_rect := mk_rect 1215 344 16 24\<rparr>)
   \<and> (\<exists>t. before_goal_check no_keys (17 / 1000) ((entered level_1_1)\<lparr>player_rect := mk_rect 1215 344 16 24\<rparr>) = Inr t
        \<and> goal_reached t \<and> score t = 0 \<and> time_left t = 300
        \<and> update_level_gameplay no_keys (17 / 1000) ((entered level_1_1)\<lparr>player_rect := mk_rect 1215 344 16 24\<rparr>)
            = Inr (t\<lparr>game_state := Victory, score := score t + \<lfloor>time_left t\<rfloor> * 10\<rparr>))"
proof -
  let ?s = "(entered level_1_1)\<lparr>player_rect := mk_rect 1215 344 16 24\<rparr>"
  have h1: "current_level_spec ?s \<noteq> None" by code_simp
  have h2: "0 \<le> time_left ?s" by code_simp
  have "case before_goal_check no_keys (17 / 1000) ?s of Inl e \<Rightarrow> False
        | Inr t \<Rightarrow> goal_reached t \<and> score t = 0 \<and> time_left t = 300"
    by code_simp
  then obtain t where h3: "before_goal_check no_keys (17 / 1000) ?s = Inr t"
    and h4: "goal_reached t" and o: "score t = 0" "time_left t = 300"
    by (cases "before_goal_check no_keys (17 / 1000) ?s") auto
  show ?thesis using h1 h2 h3 h4 o goal_reached_ends_tick[OF h1 h2 h3 h4] by blast
qed

text \<open>
  The remaining time is positive in every level state that the frame loop reaches from
  the initial state, so that the premise on the remaining time above holds for every
  tick the game runs.
\<close>

lemma paused_resolve: "paused (resolve d c s) = paused s"
  by (cases d) (simp_all add: resolve_def Let_def)

lemma paused_fold_resolve: "paused (fold (resolve d) cs s) = paused s"
  by (induction cs arbitrary: s) (simp_all add: paused_resolve)

lemma paused_handle_level_collisions:
  "handle_level_collisions d s = Inr t \<Longrightarrow> paused t = paused s"
  unfolding handle_level_collisions_def
  by (cases "Grid_query (spatial_grid s) (player_rect s)") (auto simp: paused_fold_resolve)

lemma death_level_ok:
  assumes "handle_player_death s = Inr t"
  shows "(game_state t = Level \<longrightarrow> 0 < time_left t) \<and> (paused t \<longrightarrow> paused s)"
  using assms unfolding handle_player_death_def Let_def
  by (auto simp: game_over_transition_def load_overworld_state_def loaded_fields
      split: if_splits option.splits elim!: load_level_from_spec_cases)

lemma paused_hurt: "handle_player_hurt s = Inr t \<Longrightarrow> paused t \<Longrightarrow> paused s"
  unfolding handle_player_hurt_def
  by (auto simp: set_player_level_state_def Let_def split: if_splits dest: death_level_ok)

lemma paused_update_enemy: "update_enemy dt i s = Inr t \<Longrightarrow> paused t \<Longrightarrow> paused s"
  unfolding update_enemy_def remove_enemy_def Let_def
  by (auto split: enemy_mode.splits if_splits option.splits dest: paused_hurt)

lemma paused_update_enemies: "update_enemies dt s = Inr t \<Longrightarrow> paused t \<longrightarrow> paused s"
  unfolding update_enemies_def
  by (rule for_each_rel[where f = "update_enemy dt" and R = "\<lambda>s t. paused t \<longrightarrow> paused s"])
     (auto dest: paused_update_enemy)

lemma paused_collect_coins: "collect_coins s = Inr t \<Longrightarrow> paused t = paused s"
  unfolding collect_coins_def
  by (rule for_each_rel[where f = collect_coin and R = "\<lambda>s t. paused t = paused s"])
     (auto simp: collect_coin_def split: if_splits)

lemma paused_before_goal_check:
  assumes "before_goal_check keys dt s = Inr t" and "\<not> paused s"
  shows "\<not> paused t"
proof -
  from assms(1) obtain s1 s2 s3 where
    1: "handle_level_collisions Horizontal (move_x (player_input keys dt s)) = Inr s1"
    and 2: "handle_level_collisions Vertical (move_y s1) = Inr s2"
    and 3: "update_enemies dt (update_camera s2) = Inr s3"
    and 4: "collect_coins s3 = Inr t"
    unfolding before_goal_check_def bind_err_def by (auto split: sum.splits)
  have "\<not> paused s1"
    using paused_handle_level_collisions[OF 1] assms(2) by (simp add: move_x_def player_input_def Let_def)
  then have "\<not> paused s2"
    using paused_handle_level_collisions[OF 2] by (simp add: move_y_def)
  then have "\<not> paused s3"
    using paused_update_enemies[OF 3] by (simp add: update_camera_def Let_def)
  then show ?thesis using paused_collect_coins[OF 4] by simp
qed

lemma timers_and_bounds_level_ok:
  assumes "timers_and_bounds dt s = Inr t" and "\<not> paused s"
  shows "(game_state t = Level \<longrightarrow> 0 < time_left t) \<and> \<not> paused t"
proof -
  let ?s1 = "(if invincibility_timer s > 0 then s\<lparr>invincibility_timer := invincibility_timer s - 1\<rparr> else s)
              \<lparr>time_left := time_left s - dt\<rparr>"
  have p1: "\<not> paused ?s1" using assms(2) by simp
  obtain s2 where a: "(if time_left ?s1 \<le> 0 then handle_player_death ?s1 else Inr ?s1) = Inr s2"
    and b: "(if rect_top (player_rect s2) > H then handle_player_death s2 else Inr s2) = Inr t"
    using assms(1) unfolding timers_and_bounds_def Let_def bind_err_def
    by (auto split: sum.splits if_splits)
  have s2: "(game_state s2 = Level \<longrightarrow> 0 < time_left s2) \<and> \<not> paused s2"
  proof (cases "time_left ?s1 \<le> 0")
    case True
    then have "handle_player_death ?s1 = Inr s2" using a by simp
    then show ?thesis using death_level_ok p1 by blast
  next
    case False
    then have "s2 = ?s1" using a by simp
    then show ?thesis using False p1 by simp
  qed
  show ?thesis
  proof (cases "rect_top (player_rect s2) > H")
    case True
    then have "handle_player_death s2 = Inr t" using b by simp
    then show ?thesis using death_level_ok s2 by blast
  next
    case False
    then have "t = s2" using b by simp
    then show ?thesis using s2 by simp
  qed
qed

lemma update_level_gameplay_level_ok:
  assumes "update_level_gameplay keys dt s = Inr t" and "\<not> paused s" and "level_ok s"
  shows "level_ok t"
proof (cases "current_level_spec s = None")
  case True
  then show ?thesis using assms by (simp add: update_level_gameplay_def)
next
  case False
  then obtain s1 where a: "before_goal_check keys dt s = Inr s1" and b: "goal_check dt s1 = Inr t"
    using assms(1) unfolding update_level_gameplay_def bind_err_def by (auto split: sum.splits)
  have p: "\<not> paused s1" using a assms(2) by (rule paused_before_goal_check)
  show ?thesis
  proof (cases "goal_reached s1")
    case True
    then have "t = level_complete_transition s1" using b by (simp add: goal_check_def)
    then show ?thesis using p by (simp add: level_ok_def level_complete_transition_def)
  next
    case False
    then have "timers_and_bounds dt s1 = Inr t" using b by (simp add: goal_check_def)
    then show ?thesis using timers_and_bounds_level_ok p unfolding level_ok_def by blast
  qed
qed

lemma handle_event_level_ok: "handle_event ev s = Some t \<Longrightarrow> level_ok s \<Longrightarrow> level_ok t"
  unfolding handle_event_def level_ok_def Let_def load_overworld_state_def
  by (cases ev) (auto split: if_splits)

lemma handle_events_level_ok: "handle_events evs s = Some t \<Longrightarrow> level_ok s \<Longrightarrow> level_ok t"
proof (induction evs arbitrary: s)
  case Nil then show ?case by simp
next
  case (Cons ev evs)
  then obtain s1 where a: "handle_event ev s = Some s1" and b: "handle_events evs s1 = Some t"
    by (cases "handle_event ev s") auto
  show ?case using Cons.IH[OF b handle_event_level_ok[OF a Cons.prems(2)]] .
qed

lemma overworld_navigation_level_ok:
  assumes "update_overworld_map_navigation specs keys dt s = Inr t" and "\<not> paused s"
    and "game_state s = Overworld"
  shows "level_ok t"
proof -
  have "(game_state t = Overworld \<and> \<not> paused t) \<or> (0 < time_left t)"
    using assms unfolding update_overworld_map_navigation_def Let_def bind_err_def py_mod_def
    by (auto simp: loaded_fields split: sum.splits if_splits option.splits prod.splits
        elim!: load_level_from_spec_cases)
  then show ?thesis by (auto simp: level_ok_def)
qed

lemma update_frame_level_ok:
  assumes "update_frame specs keys dt s = Inr t" and "level_ok s"
  shows "level_ok t"
  using assms overworld_navigation_level_ok update_level_gameplay_level_ok
  unfolding update_frame_def
  by (auto simp: level_ok_def load_overworld_state_def split: if_splits)

lemma frame_level_ok:
  assumes "frame specs inp s = Inr (Some t)" and "level_ok s"
  shows "level_ok t"
proof -
  obtain evs keys dt where inp: "inp = (evs, keys, dt)" by (cases inp)
  obtain s1 where a: "handle_events evs s = Some s1" and b: "update_frame specs keys dt s1 = Inr t"
    using assms(1) unfolding frame_def inp bind_err_def
    by (auto split: option.splits sum.splits)
  show ?thesis using update_frame_level_ok[OF b handle_events_level_ok[OF a assms(2)]] .
qed

lemma run_frames_level_ok:
  "run_frames specs inps s = Inr (Some t) \<Longrightarrow> level_ok s \<Longrightarrow> level_ok t"
proof (induction inps arbitrary: s)
  case Nil then show ?case by simp
next
  case (Cons inp inps)
  then obtain s1 where a: "frame specs inp s = Inr (Some s1)" and b: "run_frames specs inps s1 = Inr (Some t)"
    by (cases "frame specs inp s") (auto split: option.splits)
  show ?case using Cons.IH[OF b frame_level_ok[OF a Cons.prems(2)]] .
qed

lemma time_left_positive_in_level:
  assumes "run_frames specs inps initial_game = Inr (Some t)" and "game_state t = Level"
  shows "0 < time_left t"
proof -
  have "level_ok initial_game" by (simp add: level_ok_def game_eval)
  then have "level_ok t" using assms(1) run_frames_level_ok by blast
  then show ?thesis using assms(2) by (simp add: level_ok_def)
qed

end
